theory Spec2Isabelle
  imports Main "HOL-Library.Multiset"
begin

section \<open>Version Comparator\<close>

text \<open>
  The command orders versions through the semantic-version library: \<open>LessThan\<close>,
  \<open>GreaterThan\<close>, the sort of a \<open>semver.Collection\<close>, and \<open>latest.LessOrEqual\<close>.
  The library is not part of the source file; its comparison, parser and printer are
  modelled below from what the specification says of the Version Comparator.
\<close>

datatype ordering = Less | Equal | Greater

fun flip :: "ordering \<Rightarrow> ordering" where
  "flip Less = Greater"
| "flip Equal = Equal"
| "flip Greater = Less"

definition compare_nat :: "nat \<Rightarrow> nat \<Rightarrow> ordering" where
  "compare_nat a b = (if a < b then Less else if a = b then Equal else Greater)"

definition compare_char :: "char \<Rightarrow> char \<Rightarrow> ordering" where
  "compare_char a b = compare_nat (of_char a) (of_char b)"

fun lex_compare :: "('a \<Rightarrow> 'a \<Rightarrow> ordering) \<Rightarrow> 'a list \<Rightarrow> 'a list \<Rightarrow> ordering" where
  "lex_compare c [] [] = Equal"
| "lex_compare c [] (y # ys) = Less"
| "lex_compare c (x # xs) [] = Greater"
| "lex_compare c (x # xs) (y # ys) =
     (case c x y of Equal \<Rightarrow> lex_compare c xs ys | r \<Rightarrow> r)"

text \<open>
  A pre-release is a list of dot-separated identifiers, numeric or alphanumeric.
\<close>

datatype ident = Numeric nat | Alphanum string

text \<open>
  Modelled from the spec: the precedence of pre-release identifiers under the "standard
  semantic-versioning precedence rules" of section 4.1; the library's comparison is not
  part of the source file. Numeric identifiers compare by value, alphanumeric ones
  byte-wise, and a numeric identifier is below an alphanumeric one.
\<close>

fun compare_ident :: "ident \<Rightarrow> ident \<Rightarrow> ordering" where
  "compare_ident (Numeric a) (Numeric b) = compare_nat a b"
| "compare_ident (Numeric a) (Alphanum t) = Less"
| "compare_ident (Alphanum s) (Numeric b) = Greater"
| "compare_ident (Alphanum s) (Alphanum t) = lex_compare compare_char s t"

text \<open>
  Modelled from the spec: the precedence of pre-releases under the same rules; the
  library's comparison is not part of the source file. A version with a pre-release is
  below the same version without one; two pre-releases compare identifier by identifier,
  a shorter list below a longer one that it is a prefix of.
\<close>

fun compare_pre :: "ident list \<Rightarrow> ident list \<Rightarrow> ordering" where
  "compare_pre [] [] = Equal"
| "compare_pre [] (y # ys) = Greater"
| "compare_pre (x # xs) [] = Less"
| "compare_pre (x # xs) (y # ys) = lex_compare compare_ident (x # xs) (y # ys)"

record version =
  major :: nat
  minor :: nat
  patch :: nat
  pre :: "ident list"
  metadata :: string

text \<open>
  Modelled from the spec: \<open>compare(a, b) -> {less, equal, greater}\<close> of section 4.1, a
  total order over (major, minor, patch, pre-release); the library's \<open>Compare\<close> is not
  part of the source file. Build metadata takes no part.
\<close>

definition Compare :: "version \<Rightarrow> version \<Rightarrow> ordering" where
  "Compare a b =
     (case compare_nat (major a) (major b) of
        Equal \<Rightarrow>
          (case compare_nat (minor a) (minor b) of
             Equal \<Rightarrow>
               (case compare_nat (patch a) (patch b) of
                  Equal \<Rightarrow> compare_pre (pre a) (pre b)
                | r \<Rightarrow> r)
           | r \<Rightarrow> r)
      | r \<Rightarrow> r)"

text \<open>
  Modelled from the spec: the predicates \<open>lessOrEqual\<close> and \<open>greaterThan\<close> of section
  4.1, "convenience predicates built on compare", and \<open>LessThan\<close> with them; the
  library's methods are not part of the source file.
\<close>

definition LessOrEqual :: "version \<Rightarrow> version \<Rightarrow> bool" where
  "LessOrEqual a b = (Compare a b \<noteq> Greater)"

definition GreaterThan :: "version \<Rightarrow> version \<Rightarrow> bool" where
  "GreaterThan a b = (Compare a b = Greater)"

definition LessThan :: "version \<Rightarrow> version \<Rightarrow> bool" where
  "LessThan a b = (Compare a b = Less)"

subsection \<open>Parsing and printing\<close>

definition is_digit :: "char \<Rightarrow> bool" where
  "is_digit c = (48 \<le> (of_char c :: nat) \<and> (of_char c :: nat) \<le> 57)"

definition is_ident_char :: "char \<Rightarrow> bool" where
  "is_ident_char c =
     (let n = (of_char c :: nat)
      in (48 \<le> n \<and> n \<le> 57) \<or> (65 \<le> n \<and> n \<le> 90) \<or> (97 \<le> n \<and> n \<le> 122) \<or> n = 45)"

definition digits_value :: "string \<Rightarrow> nat" where
  "digits_value ds = foldl (\<lambda>n c. 10 * n + ((of_char c :: nat) - 48)) 0 ds"

definition parse_num :: "string \<Rightarrow> nat option" where
  "parse_num s =
     (if s = [] \<or> \<not> list_all is_digit s then None
      else if hd s = CHR ''0'' \<and> tl s \<noteq> [] then None
      else Some (digits_value s))"

fun split_on :: "char \<Rightarrow> string \<Rightarrow> string list" where
  "split_on d [] = [[]]"
| "split_on d (c # cs) =
     (if c = d then [] # split_on d cs
      else (case split_on d cs of
              [] \<Rightarrow> [[c]]
            | p # ps \<Rightarrow> (c # p) # ps))"

definition cut :: "char \<Rightarrow> string \<Rightarrow> string \<times> string option" where
  "cut d s =
     (if d \<in> set s then (takeWhile (\<lambda>c. c \<noteq> d) s, Some (tl (dropWhile (\<lambda>c. c \<noteq> d) s)))
      else (s, None))"

definition parse_ident :: "string \<Rightarrow> ident option" where
  "parse_ident s =
     (if s = [] \<or> \<not> list_all is_ident_char s then None
      else if list_all is_digit s then map_option Numeric (parse_num s)
      else Some (Alphanum s))"

fun sequence :: "'a option list \<Rightarrow> 'a list option" where
  "sequence [] = Some []"
| "sequence (None # xs) = None"
| "sequence (Some x # xs) = map_option ((#) x) (sequence xs)"

definition valid_metadata :: "string \<Rightarrow> bool" where
  "valid_metadata m = list_all (\<lambda>p. p \<noteq> [] \<and> list_all is_ident_char p) (split_on CHR ''.'' m)"

text \<open>
  Modelled from the spec: \<open>parse(text) -> Version | fails with InvalidVersion\<close> of the
  Version Comparator (section 4.1); the parser of the semantic-version library that
  \<open>semver.MustParse\<close> calls is not part of the source file. A version is
  \<open>major.minor.patch\<close> with an optional \<open>-prerelease\<close> and an optional
  \<open>+metadata\<close> (section 3); anything else is rejected. \<open>None\<close> is the failure.
\<close>

definition NewVersion :: "string \<Rightarrow> version option" where
  "NewVersion s =
     (case cut CHR ''+'' s of (rest, meta) \<Rightarrow>
      case cut CHR ''-'' rest of (core, prerelease) \<Rightarrow>
      case map parse_num (split_on CHR ''.'' core) of
        [Some ma, Some mi, Some pa] \<Rightarrow>
          (case (case prerelease of
                   None \<Rightarrow> Some []
                 | Some p \<Rightarrow> sequence (map parse_ident (split_on CHR ''.'' p))) of
             None \<Rightarrow> None
           | Some ids \<Rightarrow>
               (case meta of
                  None \<Rightarrow>
                    Some \<lparr>major = ma, minor = mi, patch = pa, pre = ids, metadata = []\<rparr>
                | Some m \<Rightarrow>
                    if valid_metadata m
                    then Some \<lparr>major = ma, minor = mi, patch = pa, pre = ids, metadata = m\<rparr>
                    else None))
      | _ \<Rightarrow> None)"

fun show_nat :: "nat \<Rightarrow> string" where
  "show_nat n =
     (if n < 10 then [char_of (48 + n)]
      else show_nat (n div 10) @ [char_of (48 + n mod 10)])"

declare show_nat.simps [simp del]

fun show_ident :: "ident \<Rightarrow> string" where
  "show_ident (Numeric n) = show_nat n"
| "show_ident (Alphanum s) = s"

fun join_dots :: "string list \<Rightarrow> string" where
  "join_dots [] = []"
| "join_dots [p] = p"
| "join_dots (p # q # ps) = p @ ''.'' @ join_dots (q # ps)"

text \<open>
  Modelled from the spec: the printed form of a parsed version, which the source reads
  through \<open>v.String()\<close> and \<open>latest.Version()\<close>; the library method is not part of
  the source file. It prints \<open>major.minor.patch\<close>, then \<open>-prerelease\<close> and
  \<open>+metadata\<close> when present.
\<close>

definition String :: "version \<Rightarrow> string" where
  "String v =
     show_nat (major v) @ ''.'' @ show_nat (minor v) @ ''.'' @ show_nat (patch v)
     @ (if pre v = [] then [] else ''-'' @ join_dots (map show_ident (pre v)))
     @ (if metadata v = [] then [] else ''+'' @ metadata v)"

section \<open>Upgrade notices (lines 205--226 of \<open>run\<close>)\<close>

text \<open>
  The annotation table is a Go \<open>map[string]string\<close>. It is kept as an association list:
  the order of the list is the order in which \<open>range\<close> visits the keys, which Go leaves
  unspecified, so nothing below depends on it. A lookup of a missing key yields the empty
  string, as indexing a Go map does.
\<close>

type_synonym annotation = "(string \<times> string) list"

definition lookup :: "annotation \<Rightarrow> string \<Rightarrow> string" where
  "lookup ann k = (case map_of ann k of None \<Rightarrow> [] | Some t \<Rightarrow> t)"

text \<open>
  \<open>semver.MustParse\<close> panics where the parser fails; \<open>None\<close> is the panic. The first loop
  appends \<open>MustParse(v)\<close> for every key and so panics at the first key that does not parse.
\<close>

definition MustParse :: "string \<Rightarrow> version option" where
  "MustParse s = NewVersion s"

fun parse_keys :: "string list \<Rightarrow> version list \<Rightarrow> version list option" where
  "parse_keys [] vs = Some vs"
| "parse_keys (k # ks) vs =
     (case MustParse k of
        None \<Rightarrow> None
      | Some v \<Rightarrow> parse_keys ks (vs @ [v]))"

text \<open>
  \<open>sort.Sort(semver.Collection(vs))\<close> orders the slice by \<open>LessThan\<close>. It is modelled
  by insertion; the order it gives to versions of equal precedence is one of those the
  unstable library sort may give.
\<close>

fun insert_version :: "version \<Rightarrow> version list \<Rightarrow> version list" where
  "insert_version v [] = [v]"
| "insert_version v (w # ws) =
     (if LessThan v w then v # w # ws else w # insert_version v ws)"

fun sort_collection :: "version list \<Rightarrow> version list" where
  "sort_collection [] = []"
| "sort_collection (v # vs) = insert_version v (sort_collection vs)"

text \<open>
  The second loop. Each round parses the current and the target version again with
  \<open>MustParse\<close>, leaves the loop at the first version above the target, and appends the
  bullet line of a version above the current one. The text is looked up under the
  printed form of the version.
\<close>

fun notice_loop ::
  "annotation \<Rightarrow> string \<Rightarrow> string \<Rightarrow> version list \<Rightarrow> string list \<Rightarrow> string list option"
where
  "notice_loop ann cur tgt [] messages = Some messages"
| "notice_loop ann cur tgt (v # vs) messages =
     (case MustParse cur of
        None \<Rightarrow> None
      | Some start \<Rightarrow>
          (case MustParse tgt of
             None \<Rightarrow> None
           | Some stop \<Rightarrow>
               if LessThan stop v then Some messages
               else if GreaterThan v start
               then notice_loop ann cur tgt vs (messages @ [''- '' @ lookup ann (String v)])
               else notice_loop ann cur tgt vs messages))"

definition upgrade_notices :: "annotation \<Rightarrow> string \<Rightarrow> string \<Rightarrow> string list option" where
  "upgrade_notices ann cur tgt =
     (case parse_keys (map fst ann) [] of
        None \<Rightarrow> None
      | Some vs \<Rightarrow> notice_loop ann cur tgt (sort_collection vs) [])"

section \<open>The world of one invocation\<close>

datatype error =
    New string
  | Wrap error string
  | Errorf string
  | External string

type_synonym path = "string list"

record fileinfo =
  content :: string
  mode :: nat

type_synonym filesystem = "path \<Rightarrow> fileinfo option"

datatype event =
    Stdout string
  | Stderr string
  | HttpGet
  | DetectLatest
  | AskSelect "string list"
  | AskConfirm string
  | Download
  | Unarchive
  | Open path
  | UpdateTo string string path
  | Apply path path

record world =
  files :: filesystem
  trace :: "event list"

definition emit :: "event \<Rightarrow> world \<Rightarrow> world" where
  "emit e w = w\<lparr>trace := trace w @ [e]\<rparr>"

datatype outcome = Return "error option" | Panic

subsection \<open>Binary Installer\<close>

datatype fault = NoFault | WriteFault nat | VerifyFault | SwapFault

definition temp_path :: "path \<Rightarrow> path" where
  "temp_path target = butlast target @ [''.'' @ (if target = [] then [] else last target) @ ''.new'']"

text \<open>
  Modelled from the spec: the Binary Installer \<open>install(sourceBytes, targetPath)\<close> of
  section 4.4, which the source reaches through \<open>selfupdate.UpdateTo\<close> and
  \<open>update.Apply\<close>; neither library is part of the source file. It writes the new binary
  to a temporary file next to the target, verifies that it is readable and not empty, then
  swaps it into the target path in one step, keeping the mode of the original file. The
  \<open>fault\<close> says which step the environment lets fail: a write that stops after \<open>n\<close>
  bytes (disk full), a failed verification, or a failed swap.
\<close>

definition install :: "string \<Rightarrow> path \<Rightarrow> fault \<Rightarrow> filesystem \<Rightarrow> error option \<times> filesystem" where
  "install src target flt fs =
     (let tmp = temp_path target;
          perm = (case fs target of None \<Rightarrow> 493 | Some f \<Rightarrow> mode f)
      in case flt of
           WriteFault n \<Rightarrow>
             (Some (External ''write failed''),
              fs(tmp \<mapsto> \<lparr>content = take n src, mode = perm\<rparr>))
         | _ \<Rightarrow>
             (let fs1 = fs(tmp \<mapsto> \<lparr>content = src, mode = perm\<rparr>)
              in if flt = VerifyFault \<or> src = []
                 then (Some (External ''verification failed''), fs1(tmp := None))
                 else if flt = SwapFault
                 then (Some (External ''swap failed''), fs1(tmp := None))
                 else (None, (fs1(tmp := None))(target \<mapsto> \<lparr>content = src, mode = perm\<rparr>))))"

subsection \<open>Collaborators\<close>

text \<open>
  \<open>release\<close> is the release record that \<open>selfupdate.DetectLatest\<close> returns: the two
  fields the source reads and the parsed version behind \<open>latest.Version()\<close> and
  \<open>latest.LessOrEqual\<close>.
\<close>

record release =
  AssetURL :: string
  AssetName :: string
  rversion :: version

definition release_Version :: "release \<Rightarrow> string" where
  "release_Version r = String (rversion r)"

text \<open>
  Modelled from the spec: \<open>latest.LessOrEqual(Version)\<close> of the update library, which
  is not part of the source file. It takes the current version as text and returns a
  boolean only; section 4.1 builds \<open>lessOrEqual\<close> on \<open>parse\<close> and \<open>compare\<close>, and
  section 7 makes an \<open>InvalidVersion\<close> fatal for the comparison it blocks. \<open>None\<close> is
  that failure: the comparison has no error result to return, so it panics.
\<close>

definition release_LessOrEqual :: "release \<Rightarrow> string \<Rightarrow> bool option" where
  "release_LessOrEqual r other =
     (case MustParse other of
        None \<Rightarrow> None
      | Some v \<Rightarrow> Some (LessOrEqual (rversion r) v))"

record asset =
  Name :: string
  Home :: path
  Path :: path
  URL :: string

record json_asset =
  name :: string
  browser_download_url :: string

record json_release =
  tag_name :: string
  assets :: "json_asset list"

text \<open>
  What the environment answers during one invocation. \<open>detect_latest\<close> is the triple
  \<open>(latest, found, err)\<close> of \<open>selfupdate.DetectLatest\<close>; \<open>confirm_answer\<close> is the
  error of \<open>survey.AskOne\<close> or the value it leaves in \<open>yes\<close>; \<open>select_answer\<close> is the
  tag the selection prompt stores, \<open>None\<close> when the prompt ends without storing one;
  \<open>http_Get\<close> is the decoded body of the release listing; \<open>fetch_asset\<close> is the
  downloaded and decompressed asset of \<open>selfupdate.UpdateTo\<close>. \<open>release_Download\<close> and
  \<open>release_Unarchive\<close> stand for the methods of \<open>config.GitHubRelease\<close>, which are not
  part of the source file: they are parameters, and may change the file system.
\<close>

record env =
  Version :: string
  GOOS :: string
  GOARCH :: string
  runtime_Version :: string
  HOME :: path
  detect_latest :: "release \<times> bool \<times> error option"
  confirm_answer :: "error + bool"
  os_Executable :: "error + path"
  fetch_asset :: "string \<Rightarrow> string \<Rightarrow> error + string"
  install_fault :: fault
  http_Get :: "error + json_release list"
  select_answer :: "string option"
  release_Download :: "asset list \<Rightarrow> filesystem \<Rightarrow> (error + asset) \<times> filesystem"
  release_Unarchive :: "asset \<Rightarrow> filesystem \<Rightarrow> error option \<times> filesystem"

definition selfupdate_UpdateTo ::
  "env \<Rightarrow> string \<Rightarrow> string \<Rightarrow> path \<Rightarrow> world \<Rightarrow> error option \<times> world"
where
  "selfupdate_UpdateTo e url nm exe w =
     (let w1 = emit (UpdateTo url nm exe) w
      in case fetch_asset e url nm of
           Inl err \<Rightarrow> (Some err, w1)
         | Inr bytes \<Rightarrow>
             (case install bytes exe (install_fault e) (files w1) of
                (r, fs) \<Rightarrow> (r, w1\<lparr>files := fs\<rparr>)))"

definition update_Apply :: "env \<Rightarrow> path \<Rightarrow> fileinfo \<Rightarrow> path \<Rightarrow> world \<Rightarrow> error option \<times> world" where
  "update_Apply e src fp exe w =
     (let w1 = emit (Apply src exe) w
      in case install (content fp) exe (install_fault e) (files w1) of
           (r, fs) \<Rightarrow> (r, w1\<lparr>files := fs\<rparr>))"

section \<open>The command\<close>

definition nl :: string where
  "nl = [CHR 0x0A]"

definition unsupported_build_text :: "env \<Rightarrow> string" where
  "unsupported_build_text e =
     ''Failed to update to new version!'' @ nl @ nl
     @ ''  You need to get precompiled version from GitHub releases.'' @ nl
     @ ''  This version ('' @ Version e @ ''/'' @ runtime_Version e
     @ '') is compiled from source code.'' @ nl @ nl"

definition not_found_text :: "env \<Rightarrow> string" where
  "not_found_text e =
     ''latest version for '' @ GOOS e @ ''/'' @ GOARCH e
     @ '' could not be found from GitHub repository''"

definition up_to_date_text :: "env \<Rightarrow> string" where
  "up_to_date_text e = ''Current version ('' @ Version e @ '') is the latest'' @ nl"

definition confirm_text :: "env \<Rightarrow> release \<Rightarrow> string" where
  "confirm_text e latest =
     ''Do you want to update to '' @ release_Version latest
     @ ''? (current version: '' @ Version e @ '')''"

definition success_text :: "release \<Rightarrow> string" where
  "success_text latest = ''Successfully updated to version '' @ release_Version latest @ nl"

fun join_lines :: "string list \<Rightarrow> string" where
  "join_lines [] = []"
| "join_lines [m] = m"
| "join_lines (m # n # ms) = m @ nl @ join_lines (n # ms)"

definition notices_text :: "release \<Rightarrow> string list \<Rightarrow> string" where
  "notices_text latest messages =
     nl @ ''To use \"'' @ release_Version latest @ ''\" version:'' @ nl
     @ join_lines messages @ nl"

definition run :: "env \<Rightarrow> annotation \<Rightarrow> world \<Rightarrow> outcome \<times> world" where
  "run e ann w =
     (if Version e = ''unset''
      then (Return (Some (New ''failed to run self-update'')),
            emit (Stderr (unsupported_build_text e)) w)
      else
        let w1 = emit DetectLatest w
        in case detect_latest e of
             (latest, found, Some err) \<Rightarrow>
               (Return (Some (Wrap err ''error occurred while detecting version'')), w1)
           | (latest, found, None) \<Rightarrow>
               if \<not> found then (Return (Some (Errorf (not_found_text e))), w1)
               else
                 (case release_LessOrEqual latest (Version e) of
                    None \<Rightarrow> (Panic, w1)
                  | Some True \<Rightarrow>
                      (Return None, emit (Stdout (up_to_date_text e)) w1)
                  | Some False \<Rightarrow>
                      (let w2 = emit (AskConfirm (confirm_text e latest)) w1
                       in case confirm_answer e of
                            Inl err \<Rightarrow>
                              (Return (Some (Wrap err ''cannot get answer from console'')), w2)
                          | Inr yes \<Rightarrow>
                              if \<not> yes then (Return None, w2)
                              else
                                (case os_Executable e of
                                   Inl err \<Rightarrow>
                                     (Return (Some (New ''could not locate executable path'')), w2)
                                 | Inr exe \<Rightarrow>
                                     (case selfupdate_UpdateTo e (AssetURL latest)
                                             (AssetName latest) exe w2 of
                                        (Some err, w3) \<Rightarrow>
                                          (Return (Some (Wrap err
                                             ''error occurred while updating binary'')), w3)
                                      | (None, w3) \<Rightarrow>
                                          (let w4 = emit (Stdout (success_text latest)) w3
                                           in case upgrade_notices ann (Version e)
                                                     (release_Version latest) of
                                                None \<Rightarrow> (Panic, w4)
                                              | Some messages \<Rightarrow>
                                                  if messages \<noteq> []
                                                  then (Return None,
                                                        emit (Stdout (notices_text latest messages)) w4)
                                                  else (Return None, w4)))))))"

definition selected_assets :: "env \<Rightarrow> json_release list \<Rightarrow> string \<Rightarrow> asset list" where
  "selected_assets e body tag =
     (case find (\<lambda>r. tag_name r = tag) body of
        None \<Rightarrow> []
      | Some rel \<Rightarrow>
          map (\<lambda>a. \<lparr>Name = name a, Home = HOME e @ [''.afx''],
                     Path = HOME e @ [''.afx'', name a],
                     URL = browser_download_url a\<rparr>) (assets rel))"

definition selectTag :: "env \<Rightarrow> world \<Rightarrow> outcome \<times> world" where
  "selectTag e w =
     (let w1 = emit HttpGet w
      in case http_Get e of
           Inl err \<Rightarrow> (Return (Some err), w1)
         | Inr body \<Rightarrow>
             (let tags = map tag_name body;
                  w2 = emit (AskSelect tags) w1;
                  tag = (case select_answer e of None \<Rightarrow> [] | Some t \<Rightarrow> t);
                  w3 = emit Download w2
              in case release_Download e (selected_assets e body tag) (files w3) of
                   (Inl err, fs) \<Rightarrow> (Return (Some err), w3\<lparr>files := fs\<rparr>)
                 | (Inr a, fs) \<Rightarrow>
                     (let w4 = emit Unarchive (w3\<lparr>files := fs\<rparr>)
                      in case release_Unarchive e a (files w4) of
                           (Some err, fs') \<Rightarrow> (Return (Some err), w4\<lparr>files := fs'\<rparr>)
                         | (None, fs') \<Rightarrow>
                             (let w5 = emit (Open (Home a @ [''afx''])) (w4\<lparr>files := fs'\<rparr>)
                              in case files w5 (Home a @ [''afx'']) of
                                   None \<Rightarrow>
                                     (Return (Some (External ''open: no such file or directory'')), w5)
                                 | Some fp \<Rightarrow>
                                     (case os_Executable e of
                                        Inl err \<Rightarrow>
                                          (Return (Some (New ''could not locate executable path'')), w5)
                                      | Inr exe \<Rightarrow>
                                          (case update_Apply e (Home a @ [''afx'']) fp exe w5 of
                                             (r, w6) \<Rightarrow> (Return r, w6)))))))"

section \<open>A concrete invocation\<close>

text \<open>
  A release 1.3.0 for a binary built as 1.1.0 and installed with mode 0755, a user who
  confirms, and collaborators that succeed: the fixture the closed theorems start from.
\<close>

definition example_release :: release where
  "example_release =
     \<lparr>AssetURL = ''https://example.invalid/afx_linux_amd64.tar.gz'',
      AssetName = ''afx_linux_amd64.tar.gz'',
      rversion = \<lparr>major = 1, minor = 3, patch = 0, pre = [], metadata = []\<rparr>\<rparr>"

definition example_exe :: path where
  "example_exe = [''usr'', ''local'', ''bin'', ''afx'']"

definition example_body :: "json_release list" where
  "example_body =
     [\<lparr>tag_name = ''v1.3.0'',
       assets = [\<lparr>name = ''afx_linux_amd64.tar.gz'',
                  browser_download_url = ''https://example.invalid/afx_linux_amd64.tar.gz''\<rparr>]\<rparr>,
      \<lparr>tag_name = ''v1.2.0'', assets = []\<rparr>]"

definition example_Download :: "asset list \<Rightarrow> filesystem \<Rightarrow> (error + asset) \<times> filesystem" where
  "example_Download as fs =
     (case as of
        [] \<Rightarrow> (Inl (External ''no asset for this platform''), fs)
      | a # _ \<Rightarrow> (Inr a, fs(Path a \<mapsto> \<lparr>content = ''ARCHIVE'', mode = 420\<rparr>)))"

definition example_Unarchive :: "asset \<Rightarrow> filesystem \<Rightarrow> error option \<times> filesystem" where
  "example_Unarchive a fs = (None, fs(Home a @ [''afx''] \<mapsto> \<lparr>content = ''NEW'', mode = 493\<rparr>))"

definition example_env :: env where
  "example_env =
     \<lparr>Version = ''1.1.0'', GOOS = ''linux'', GOARCH = ''amd64'', runtime_Version = ''go1.17'',
      HOME = [''home'', ''u''],
      detect_latest = (example_release, True, None),
      confirm_answer = Inr True,
      os_Executable = Inr example_exe,
      fetch_asset = (\<lambda>url nm. Inr ''NEW''),
      install_fault = NoFault,
      http_Get = Inr example_body,
      select_answer = Some ''v1.3.0'',
      release_Download = example_Download,
      release_Unarchive = example_Unarchive\<rparr>"

definition example_world :: world where
  "example_world =
     \<lparr>files = [example_exe \<mapsto> \<lparr>content = ''OLD'', mode = 493\<rparr>], trace = []\<rparr>"

section \<open>Properties of the comparator\<close>

lemma compare_nat_flip: "flip (compare_nat a b) = compare_nat b a"
  by (simp add: compare_nat_def)

lemma compare_nat_Equal: "compare_nat a b = Equal \<longleftrightarrow> a = b"
  by (simp add: compare_nat_def)

lemma compare_nat_Less: "compare_nat a b = Less \<longleftrightarrow> a < b"
  by (simp add: compare_nat_def)

lemma compare_nat_Greater: "compare_nat a b = Greater \<longleftrightarrow> b < a"
  by (auto simp add: compare_nat_def)

lemma compare_char_flip: "flip (compare_char a b) = compare_char b a"
  by (simp add: compare_char_def compare_nat_flip)

lemma compare_char_Equal: "compare_char a b = Equal \<longleftrightarrow> a = b"
  by (simp add: compare_char_def compare_nat_Equal)

lemma compare_char_trans:
  "compare_char a b = Less \<Longrightarrow> compare_char b c = Less \<Longrightarrow> compare_char a c = Less"
  by (simp add: compare_char_def compare_nat_Less)

lemma lex_compare_flip:
  assumes "\<And>x y. flip (c x y) = c y x"
  shows "flip (lex_compare c xs ys) = lex_compare c ys xs"
proof (induction xs arbitrary: ys)
  case Nil
  then show ?case by (cases ys) simp_all
next
  case (Cons x xs)
  show ?case
  proof (cases ys)
    case Nil
    then show ?thesis by simp
  next
    case (Cons y ys')
    have "flip (c x y) = c y x" by (rule assms)
    then show ?thesis
      using Cons.IH[of ys'] by (cases "c x y") (simp_all add: Cons)
  qed
qed

lemma lex_compare_Equal:
  assumes "\<And>x y. c x y = Equal \<longleftrightarrow> x = y"
  shows "lex_compare c xs ys = Equal \<longleftrightarrow> xs = ys"
proof (induction xs arbitrary: ys)
  case Nil
  then show ?case by (cases ys) simp_all
next
  case (Cons x xs)
  show ?case
  proof (cases ys)
    case Nil
    then show ?thesis by simp
  next
    case (Cons y ys')
    have "c x y = Equal \<longleftrightarrow> x = y" by (rule assms)
    then show ?thesis
      using Cons.IH[of ys'] by (cases "c x y") (simp_all add: Cons)
  qed
qed

lemma lex_compare_trans:
  assumes eq: "\<And>x y. c x y = Equal \<longleftrightarrow> x = y"
    and tr: "\<And>x y z. c x y = Less \<Longrightarrow> c y z = Less \<Longrightarrow> c x z = Less"
  shows "lex_compare c xs ys = Less \<Longrightarrow> lex_compare c ys zs = Less
         \<Longrightarrow> lex_compare c xs zs = Less"
proof (induction xs arbitrary: ys zs)
  case Nil
  then show ?case by (cases ys; cases zs; simp)
next
  case (Cons x xs)
  from Cons.prems obtain y ys' where ys: "ys = y # ys'" by (cases ys) auto
  from Cons.prems ys obtain z zs' where zs: "zs = z # zs'" by (cases zs) auto
  show ?case
  proof (cases "c x y")
    case Less
    show ?thesis
    proof (cases "c y z")
      case Less
      with \<open>c x y = Less\<close> tr have "c x z = Less" by blast
      then show ?thesis by (simp add: zs)
    next
      case Equal
      with eq have "y = z" by simp
      with \<open>c x y = Less\<close> show ?thesis by (simp add: zs)
    next
      case Greater
      with Cons.prems ys zs show ?thesis by simp
    qed
  next
    case Equal
    with eq have xy: "x = y" by simp
    show ?thesis
    proof (cases "c y z")
      case Less
      with xy show ?thesis by (simp add: zs)
    next
      case Equal
      with eq have yz: "y = z" by simp
      have cxx: "c z z = Equal" using eq by simp
      from Cons.prems ys zs xy yz cxx
      have "lex_compare c xs ys' = Less" "lex_compare c ys' zs' = Less" by simp_all
      then have "lex_compare c xs zs' = Less" by (rule Cons.IH)
      with xy yz cxx show ?thesis by (simp add: zs)
    next
      case Greater
      with Cons.prems ys zs show ?thesis by simp
    qed
  next
    case Greater
    with Cons.prems ys show ?thesis by simp
  qed
qed

lemma lex_char_flip: "flip (lex_compare compare_char xs ys) = lex_compare compare_char ys xs"
  using compare_char_flip by (rule lex_compare_flip)

lemma lex_char_Equal: "lex_compare compare_char xs ys = Equal \<longleftrightarrow> xs = ys"
  using compare_char_Equal by (rule lex_compare_Equal)

lemma compare_ident_flip: "flip (compare_ident a b) = compare_ident b a"
  by (cases a; cases b) (simp_all add: compare_nat_flip lex_char_flip)

lemma compare_ident_Equal: "compare_ident a b = Equal \<longleftrightarrow> a = b"
  by (cases a; cases b) (simp_all add: compare_nat_Equal lex_char_Equal)

lemma lex_char_trans:
  assumes "lex_compare compare_char s t = Less" "lex_compare compare_char t u = Less"
  shows "lex_compare compare_char s u = Less"
  using compare_char_Equal compare_char_trans assms by (rule lex_compare_trans)

lemma compare_ident_trans:
  assumes "compare_ident a b = Less" "compare_ident b c = Less"
  shows "compare_ident a c = Less"
proof (cases a)
  case a: (Numeric m)
  show ?thesis
  proof (cases c)
    case (Numeric k)
    with assms a show ?thesis by (cases b) (simp_all add: compare_nat_Less)
  next
    case (Alphanum u)
    with a show ?thesis by simp
  qed
next
  case a: (Alphanum s)
  from assms(1) a obtain t where b: "b = Alphanum t" by (cases b) simp_all
  from assms(2) b obtain u where c: "c = Alphanum u" by (cases c) simp_all
  from assms a b c show ?thesis by (simp add: lex_char_trans[of s t u])
qed

lemma lex_ident_trans:
  assumes "lex_compare compare_ident xs ys = Less" "lex_compare compare_ident ys zs = Less"
  shows "lex_compare compare_ident xs zs = Less"
  using compare_ident_Equal compare_ident_trans assms by (rule lex_compare_trans)

lemma lex_ident_flip: "flip (lex_compare compare_ident xs ys) = lex_compare compare_ident ys xs"
  using compare_ident_flip by (rule lex_compare_flip)

lemma lex_ident_Equal: "lex_compare compare_ident xs ys = Equal \<longleftrightarrow> xs = ys"
  using compare_ident_Equal by (rule lex_compare_Equal)

lemma compare_pre_flip: "flip (compare_pre xs ys) = compare_pre ys xs"
  by (cases xs; cases ys) (simp_all add: lex_ident_flip del: lex_compare.simps)

lemma compare_pre_Equal: "compare_pre xs ys = Equal \<longleftrightarrow> xs = ys"
  by (cases xs; cases ys)
     (simp_all add: lex_ident_Equal del: lex_compare.simps)

lemma compare_pre_trans:
  assumes "compare_pre xs ys = Less" "compare_pre ys zs = Less"
  shows "compare_pre xs zs = Less"
proof -
  show ?thesis
  proof (cases xs)
    case Nil
    with assms show ?thesis by (cases ys; cases zs; simp)
  next
    case (Cons x xs')
    show ?thesis
    proof (cases zs)
      case Nil
      with Cons show ?thesis by simp
    next
      case zs: (Cons z zs')
      from assms(2) zs obtain y ys' where ys: "ys = y # ys'" by (cases ys) auto
      from assms have "lex_compare compare_ident xs ys = Less" "lex_compare compare_ident ys zs = Less"
        unfolding Cons zs ys by simp_all
      then have "lex_compare compare_ident xs zs = Less" by (rule lex_ident_trans)
      then show ?thesis unfolding Cons zs by simp
    qed
  qed
qed

lemma Compare_flip: "flip (Compare a b) = Compare b a"
  unfolding Compare_def
  using compare_nat_flip[of "major a" "major b"] compare_nat_flip[of "minor a" "minor b"]
    compare_nat_flip[of "patch a" "patch b"] compare_pre_flip[of "pre a" "pre b"]
  by (cases "compare_nat (major a) (major b)"; cases "compare_nat (minor a) (minor b)";
      cases "compare_nat (patch a) (patch b)"; simp)

lemma Compare_Equal:
  "Compare a b = Equal \<longleftrightarrow>
     major a = major b \<and> minor a = minor b \<and> patch a = patch b \<and> pre a = pre b"
  unfolding Compare_def
  using compare_nat_Equal[of "major a" "major b"] compare_nat_Equal[of "minor a" "minor b"]
    compare_nat_Equal[of "patch a" "patch b"] compare_pre_Equal[of "pre a" "pre b"]
  by (cases "compare_nat (major a) (major b)"; cases "compare_nat (minor a) (minor b)";
      cases "compare_nat (patch a) (patch b)"; simp)

lemma Compare_Less:
  "Compare a b = Less \<longleftrightarrow>
     major a < major b \<or>
     (major a = major b \<and> (minor a < minor b \<or>
       (minor a = minor b \<and> (patch a < patch b \<or>
         (patch a = patch b \<and> compare_pre (pre a) (pre b) = Less)))))"
  unfolding Compare_def
  by (simp add: compare_nat_def)

lemma Compare_trans:
  assumes "Compare a b = Less" "Compare b c = Less"
  shows "Compare a c = Less"
  using assms compare_pre_trans[of "pre a" "pre b" "pre c"]
  unfolding Compare_Less by auto

lemma LessOrEqual_trans:
  assumes "LessOrEqual a b" "LessOrEqual b c"
  shows "LessOrEqual a c"
proof -
  have ab: "Compare a b = Less \<or> Compare a b = Equal"
    using assms(1) by (cases "Compare a b") (simp_all add: LessOrEqual_def)
  have bc: "Compare b c = Less \<or> Compare b c = Equal"
    using assms(2) by (cases "Compare b c") (simp_all add: LessOrEqual_def)
  have "Compare a c = Less \<or> Compare a c = Equal"
    using ab bc Compare_trans[of a b c]
    unfolding Compare_Equal Compare_Less by auto
  then show ?thesis by (auto simp: LessOrEqual_def)
qed

lemma LessOrEqual_iff: "LessOrEqual a b \<longleftrightarrow> Compare a b = Less \<or> Compare a b = Equal"
  by (cases "Compare a b") (simp_all add: LessOrEqual_def)

lemma LessOrEqual_total: "LessOrEqual a b \<or> LessOrEqual b a"
  using Compare_flip[of a b] by (cases "Compare a b") (auto simp: LessOrEqual_def)

lemma Compare_refl: "Compare a a = Equal"
  by (simp add: Compare_Equal)

text \<open>
  C8. For all versions \<open>a\<close>, \<open>b\<close>, \<open>c\<close> the comparison is a total order on
  (major, minor, patch, pre-release) with the precedence of semantic versioning:
  \<open>Compare a a\<close> is \<open>Equal\<close>; swapping the arguments mirrors the result (antisymmetry);
  \<open>Equal\<close> holds exactly for equal (major, minor, patch, pre-release); \<open>Less\<close> is the
  lexicographic order of these four components and is transitive, as is \<open>LessOrEqual\<close>;
  any two versions are comparable; and \<open>LessOrEqual\<close>, \<open>GreaterThan\<close> and \<open>LessThan\<close>
  agree with \<open>Compare\<close>.
\<close>

theorem Compare_total_order:
  "Compare a a = Equal
   \<and> Compare b a = flip (Compare a b)
   \<and> (Compare a b = Equal \<longleftrightarrow>
        major a = major b \<and> minor a = minor b \<and> patch a = patch b \<and> pre a = pre b)
   \<and> (Compare a b = Less \<longleftrightarrow>
        major a < major b \<or>
        (major a = major b \<and> (minor a < minor b \<or>
          (minor a = minor b \<and> (patch a < patch b \<or>
            (patch a = patch b \<and> compare_pre (pre a) (pre b) = Less))))))
   \<and> (Compare a b = Less \<and> Compare b c = Less \<longrightarrow> Compare a c = Less)
   \<and> (LessOrEqual a b \<and> LessOrEqual b c \<longrightarrow> LessOrEqual a c)
   \<and> (LessOrEqual a b \<or> LessOrEqual b a)
   \<and> (LessOrEqual a b \<longleftrightarrow> Compare a b = Less \<or> Compare a b = Equal)
   \<and> (GreaterThan a b \<longleftrightarrow> Compare a b = Greater)
   \<and> (LessThan a b \<longleftrightarrow> Compare a b = Less)"
proof -
  have tr: "Compare a b = Less \<and> Compare b c = Less \<longrightarrow> Compare a c = Less"
    using Compare_trans[of a b c] by blast
  have le: "LessOrEqual a b \<and> LessOrEqual b c \<longrightarrow> LessOrEqual a c"
    using LessOrEqual_trans[of a b c] by blast
  have fl: "Compare b a = flip (Compare a b)"
    by (simp add: Compare_flip)
  show ?thesis
    using Compare_refl[of a] fl Compare_Equal[of a b] Compare_Less[of a b] tr le
      LessOrEqual_total[of a b] LessOrEqual_iff[of a b]
    unfolding GreaterThan_def LessThan_def by blast
qed

theorem Compare_total_order_witness:
  "LessOrEqual \<lparr>major = 1, minor = 2, patch = 0, pre = [], metadata = []\<rparr>
               \<lparr>major = 1, minor = 3, patch = 0, pre = [Alphanum ''rc'', Numeric 1], metadata = []\<rparr>
   \<and> LessOrEqual \<lparr>major = 1, minor = 3, patch = 0, pre = [Alphanum ''rc'', Numeric 1], metadata = []\<rparr>
                 \<lparr>major = 1, minor = 3, patch = 0, pre = [], metadata = ''build''\<rparr>
   \<and> LessOrEqual \<lparr>major = 1, minor = 2, patch = 0, pre = [], metadata = []\<rparr>
                 \<lparr>major = 1, minor = 3, patch = 0, pre = [], metadata = ''build''\<rparr>
   \<and> Compare \<lparr>major = 1, minor = 2, patch = 0, pre = [], metadata = []\<rparr>
              \<lparr>major = 1, minor = 3, patch = 0, pre = [], metadata = ''build''\<rparr> = Less"
proof -
  let ?a = "\<lparr>major = 1, minor = 2, patch = 0, pre = [], metadata = []\<rparr>"
  let ?b = "\<lparr>major = 1, minor = 3, patch = 0, pre = [Alphanum ''rc'', Numeric 1], metadata = []\<rparr>"
  let ?c = "\<lparr>major = 1, minor = 3, patch = 0, pre = [], metadata = ''build''\<rparr>"
  have ab: "Compare ?a ?b = Less"
    by (simp add: Compare_def compare_nat_def)
  have bc: "Compare ?b ?c = Less"
    by (simp add: Compare_def compare_nat_def)
  have lab: "LessOrEqual ?a ?b" using ab by (simp add: LessOrEqual_def)
  have lbc: "LessOrEqual ?b ?c" using bc by (simp add: LessOrEqual_def)
  from Compare_total_order[of ?a ?b ?c] ab bc lab lbc
  have "LessOrEqual ?a ?c" and "Compare ?a ?c = Less" by blast+
  with lab lbc show ?thesis by blast
qed

section \<open>The automatic path\<close>

lemma run_unset:
  "Version e = ''unset'' \<Longrightarrow>
   run e ann w = (Return (Some (New ''failed to run self-update'')),
                  emit (Stderr (unsupported_build_text e)) w)"
  by (simp add: run_def)

lemma selected_assets_ignores_Version:
  "selected_assets (e\<lparr>Version := v\<rparr>) body tag = selected_assets e body tag"
  by (simp add: selected_assets_def split: option.splits)

lemma update_Apply_ignores_Version:
  "update_Apply (e\<lparr>Version := v\<rparr>) src fp exe w = update_Apply e src fp exe w"
  by (simp add: update_Apply_def)

lemma selectTag_ignores_Version: "selectTag (e\<lparr>Version := v\<rparr>) w = selectTag e w"
  by (simp add: selectTag_def selected_assets_ignores_Version update_Apply_ignores_Version
      cong: sum.case_cong prod.case_cong option.case_cong)

text \<open>
  C2, as amended. In automatic mode a binary whose build version is the sentinel
  \<open>unset\<close> fails with the error \<open>failed to run self-update\<close>: the only effect is the
  message on standard error, so no network call is made, no prompt is shown, the
  installer is not invoked and the file system is unchanged. The interactive path does
  not read the build version: it behaves the same for every value of it.
\<close>

theorem unset_refused_in_automatic_mode:
  "(Version e = ''unset'' \<longrightarrow>
      run e ann w =
        (Return (Some (New ''failed to run self-update'')),
         w\<lparr>trace := trace w @ [Stderr (unsupported_build_text e)]\<rparr>))
   \<and> selectTag (e\<lparr>Version := v\<rparr>) w = selectTag e w"
  by (simp add: run_unset emit_def selectTag_ignores_Version)

theorem unset_refused_in_automatic_mode_witness:
  "Version (example_env\<lparr>Version := ''unset''\<rparr>) = ''unset''
   \<and> run (example_env\<lparr>Version := ''unset''\<rparr>) [] example_world =
       (Return (Some (New ''failed to run self-update'')),
        example_world\<lparr>trace := trace example_world
           @ [Stderr (unsupported_build_text (example_env\<lparr>Version := ''unset''\<rparr>))]\<rparr>)
   \<and> selectTag (example_env\<lparr>Version := ''unset''\<rparr>) example_world =
       selectTag example_env example_world"
  using unset_refused_in_automatic_mode
          [of "example_env\<lparr>Version := ''unset''\<rparr>" "[]" example_world "''unset''"]
        unset_refused_in_automatic_mode [of example_env "[]" example_world "''unset''"]
  by simp

theorem unset_interactive_counterexample:
  "Version (example_env\<lparr>Version := ''unset''\<rparr>) = ''unset''
   \<and> fst (selectTag (example_env\<lparr>Version := ''unset''\<rparr>) example_world) = Return None
   \<and> trace (snd (selectTag (example_env\<lparr>Version := ''unset''\<rparr>) example_world)) =
       [HttpGet, AskSelect [''v1.3.0'', ''v1.2.0''], Download, Unarchive,
        Open [''home'', ''u'', ''.afx'', ''afx''],
        Apply [''home'', ''u'', ''.afx'', ''afx''] example_exe]
   \<and> files (snd (selectTag (example_env\<lparr>Version := ''unset''\<rparr>) example_world)) example_exe =
       Some \<lparr>content = ''NEW'', mode = 493\<rparr>"
  by (simp add: selectTag_def selected_assets_def update_Apply_def install_def
      temp_path_def emit_def example_env_def example_world_def example_body_def
      example_Download_def example_Unarchive_def example_exe_def)

text \<open>
  C4. In automatic mode, when a release is found whose version is less than or equal to
  the (valid) current version, the command returns no error after printing that the
  current version is the latest; the only events are the detection and that message, so
  neither the confirmation prompt nor the installer is reached, and no file changes.
\<close>

theorem up_to_date_is_noop:
  assumes "Version e \<noteq> ''unset''"
    and "detect_latest e = (latest, True, None)"
    and "NewVersion (Version e) = Some cur"
    and "LessOrEqual (rversion latest) cur"
  shows "run e ann w =
           (Return None,
            w\<lparr>trace := trace w
               @ [DetectLatest, Stdout (''Current version ('' @ Version e @ '') is the latest'' @ nl)]\<rparr>)"
  using assms
  by (simp add: run_def release_LessOrEqual_def MustParse_def emit_def up_to_date_text_def)

theorem up_to_date_is_noop_witness:
  "Version (example_env\<lparr>Version := ''1.3.0''\<rparr>) \<noteq> ''unset''
   \<and> detect_latest (example_env\<lparr>Version := ''1.3.0''\<rparr>) = (example_release, True, None)
   \<and> NewVersion (Version (example_env\<lparr>Version := ''1.3.0''\<rparr>)) = Some (rversion example_release)
   \<and> LessOrEqual (rversion example_release) (rversion example_release)
   \<and> run (example_env\<lparr>Version := ''1.3.0''\<rparr>) [] example_world =
       (Return None,
        example_world\<lparr>trace := [DetectLatest, Stdout (''Current version (1.3.0) is the latest'' @ nl)]\<rparr>)"
proof -
  let ?e = "example_env\<lparr>Version := ''1.3.0''\<rparr>"
  have 1: "Version ?e \<noteq> ''unset''" by simp
  have 2: "detect_latest ?e = (example_release, True, None)" by (simp add: example_env_def)
  have "NewVersion ''1.3.0'' = Some (rversion example_release)" by code_simp
  then have 3: "NewVersion (Version ?e) = Some (rversion example_release)" by simp
  have 4: "LessOrEqual (rversion example_release) (rversion example_release)"
    by (simp add: LessOrEqual_def Compare_refl)
  from up_to_date_is_noop [OF 1 2 3 4, of "[]" example_world] 1 2 3 4
  show ?thesis by (simp add: example_world_def)
qed

text \<open>
  C6. In automatic mode (build version not the sentinel), when the detection reports
  \<open>found = false\<close> without an error, the command returns the error that no latest
  version for the running \<open>GOOS/GOARCH\<close> could be found; the only event is the detection,
  so no prompt is shown and no install is attempted. A detection that fails with an error
  is a different outcome: the error is wrapped as
  \<open>error occurred while detecting version\<close>.
\<close>

theorem not_found_is_reported:
  assumes "Version e \<noteq> ''unset''"
  shows "(detect_latest e = (latest, False, None) \<longrightarrow>
            run e ann w =
              (Return (Some (Errorf (''latest version for '' @ GOOS e @ ''/'' @ GOARCH e
                 @ '' could not be found from GitHub repository''))),
               w\<lparr>trace := trace w @ [DetectLatest]\<rparr>))
         \<and> (detect_latest e = (latest, found, Some err) \<longrightarrow>
            run e ann w =
              (Return (Some (Wrap err ''error occurred while detecting version'')),
               w\<lparr>trace := trace w @ [DetectLatest]\<rparr>))"
  using assms by (simp add: run_def not_found_text_def emit_def)

theorem not_found_is_reported_witness:
  "Version (example_env\<lparr>detect_latest := (example_release, False, None)\<rparr>) \<noteq> ''unset''
   \<and> run (example_env\<lparr>detect_latest := (example_release, False, None)\<rparr>) [] example_world =
       (Return (Some (Errorf
          ''latest version for linux/amd64 could not be found from GitHub repository'')),
        example_world\<lparr>trace := [DetectLatest]\<rparr>)
   \<and> run (example_env\<lparr>detect_latest := (example_release, False, Some (External ''timeout''))\<rparr>)
         [] example_world =
       (Return (Some (Wrap (External ''timeout'') ''error occurred while detecting version'')),
        example_world\<lparr>trace := [DetectLatest]\<rparr>)"
proof -
  let ?e = "example_env\<lparr>detect_latest := (example_release, False, None)\<rparr>"
  let ?f = "example_env\<lparr>detect_latest := (example_release, False, Some (External ''timeout''))\<rparr>"
  have 1: "Version ?e \<noteq> ''unset''" by (simp add: example_env_def)
  have 2: "Version ?f \<noteq> ''unset''" by (simp add: example_env_def)
  from not_found_is_reported [OF 1, of example_release "[]" example_world]
    not_found_is_reported [OF 2, of example_release "[]" example_world False "External ''timeout''"] 1
  show ?thesis by (simp add: example_env_def example_world_def)
qed

text \<open>
  C7, as amended. In automatic mode, once a newer release has been found, a user who
  answers no to the confirmation ends the command with no error: the only events are the
  detection and the prompt, so the installer is not reached and no file changes. When the
  prompt itself fails (it returns an error, as it does when it is interrupted), the
  command returns that error wrapped as \<open>cannot get answer from console\<close>, again without
  reaching the installer.
\<close>

theorem declined_confirmation:
  assumes "Version e \<noteq> ''unset''"
    and "detect_latest e = (latest, True, None)"
    and "release_LessOrEqual latest (Version e) = Some False"
  shows "(confirm_answer e = Inr False \<longrightarrow>
            run e ann w =
              (Return None,
               w\<lparr>trace := trace w @ [DetectLatest,
                  AskConfirm (''Do you want to update to '' @ release_Version latest
                    @ ''? (current version: '' @ Version e @ '')'')]\<rparr>))
         \<and> (confirm_answer e = Inl err \<longrightarrow>
            run e ann w =
              (Return (Some (Wrap err ''cannot get answer from console'')),
               w\<lparr>trace := trace w @ [DetectLatest,
                  AskConfirm (''Do you want to update to '' @ release_Version latest
                    @ ''? (current version: '' @ Version e @ '')'')]\<rparr>))"
  using assms by (simp add: run_def emit_def confirm_text_def)

lemma example_not_up_to_date: "release_LessOrEqual example_release ''1.1.0'' = Some False"
  by code_simp

theorem declined_confirmation_witness:
  "run (example_env\<lparr>confirm_answer := Inr False\<rparr>) [] example_world =
     (Return None,
      example_world\<lparr>trace := [DetectLatest,
         AskConfirm ''Do you want to update to 1.3.0? (current version: 1.1.0)'']\<rparr>)
   \<and> run (example_env\<lparr>confirm_answer := Inl (External ''EOF'')\<rparr>) [] example_world =
     (Return (Some (Wrap (External ''EOF'') ''cannot get answer from console'')),
      example_world\<lparr>trace := [DetectLatest,
         AskConfirm ''Do you want to update to 1.3.0? (current version: 1.1.0)'']\<rparr>)"
proof -
  let ?e = "example_env\<lparr>confirm_answer := Inr False\<rparr>"
  let ?f = "example_env\<lparr>confirm_answer := Inl (External ''EOF'')\<rparr>"
  have 1: "Version ?e \<noteq> ''unset''" "Version ?f \<noteq> ''unset''"
    by (simp_all add: example_env_def)
  have 2: "detect_latest ?e = (example_release, True, None)"
    "detect_latest ?f = (example_release, True, None)"
    by (simp_all add: example_env_def)
  have 3: "release_LessOrEqual example_release (Version ?e) = Some False"
    "release_LessOrEqual example_release (Version ?f) = Some False"
    using example_not_up_to_date by (simp_all add: example_env_def)
  have 4: "release_Version example_release = ''1.3.0''" by code_simp
  from declined_confirmation [OF 1(1) 2(1) 3(1), of "[]" example_world]
    declined_confirmation [OF 1(2) 2(2) 3(2), of "[]" example_world "External ''EOF''"] 4
  show ?thesis by (simp add: example_env_def example_world_def)
qed

theorem cancelled_confirmation_counterexample:
  "fst (run (example_env\<lparr>confirm_answer := Inl (External ''interrupt'')\<rparr>) [] example_world) =
     Return (Some (Wrap (External ''interrupt'') ''cannot get answer from console''))"
  using example_not_up_to_date
  by (simp add: run_def example_env_def emit_def)

section \<open>The installer\<close>

lemma temp_path_neq: "temp_path target \<noteq> target"
proof
  assume eq: "temp_path target = target"
  have l: "last (temp_path target) = ''.'' @ (if target = [] then [] else last target) @ ''.new''"
    by (simp add: temp_path_def)
  show False
  proof (cases "target = []")
    case True
    have "temp_path [] \<noteq> []" by (simp add: temp_path_def)
    with eq True show False by simp
  next
    case False
    from eq have "last (temp_path target) = last target" by (rule arg_cong)
    then have "length (last (temp_path target)) = length (last target)" by (rule arg_cong)
    then show False unfolding l using False by simp
  qed
qed

lemma install_cases:
  "install src target flt fs =
     (if (\<exists>n. flt = WriteFault n)
      then (Some (External ''write failed''),
            fs(temp_path target \<mapsto>
               \<lparr>content = take (case flt of WriteFault n \<Rightarrow> n | _ \<Rightarrow> 0) src,
                mode = (case fs target of None \<Rightarrow> 493 | Some f \<Rightarrow> mode f)\<rparr>))
      else if flt = VerifyFault \<or> src = []
      then (Some (External ''verification failed''), fs(temp_path target := None))
      else if flt = SwapFault
      then (Some (External ''swap failed''), fs(temp_path target := None))
      else (None, (fs(temp_path target := None))(target \<mapsto>
              \<lparr>content = src,
               mode = (case fs target of None \<Rightarrow> 493 | Some f \<Rightarrow> mode f)\<rparr>)))"
  by (cases flt) (simp_all add: install_def Let_def)

lemma install_failure:
  assumes "install src target flt fs = (Some err, fs')"
  shows "fs' target = fs target"
proof -
  have ne: "temp_path target \<noteq> target" "target \<noteq> temp_path target"
    using temp_path_neq[of target] by auto
  from assms show ?thesis
    unfolding install_cases using ne by (simp split: if_splits) auto
qed

lemma install_success:
  assumes "install src target flt fs = (None, fs')"
  shows "flt = NoFault \<and> src \<noteq> [] \<and>
   fs' target = Some \<lparr>content = src, mode = (case fs target of None \<Rightarrow> 493 | Some f \<Rightarrow> mode f)\<rparr>"
proof -
  from assms have "\<not> (\<exists>n. flt = WriteFault n)" "flt \<noteq> VerifyFault" "src \<noteq> []" "flt \<noteq> SwapFault"
    unfolding install_cases by (simp_all split: if_splits)
  moreover from this assms have "fs' = (fs(temp_path target := None))(target \<mapsto>
              \<lparr>content = src,
               mode = (case fs target of None \<Rightarrow> 493 | Some f \<Rightarrow> mode f)\<rparr>)"
    unfolding install_cases by simp
  ultimately show ?thesis by (cases flt) simp_all
qed

lemma install_fault_fails: "flt \<noteq> NoFault \<Longrightarrow> fst (install src target flt fs) \<noteq> None"
  by (cases flt) (simp_all add: install_def Let_def)

lemma UpdateTo_failure:
  assumes "selfupdate_UpdateTo e url nm exe w = (Some err, w')"
  shows "files w' exe = files w exe"
proof (cases "fetch_asset e url nm")
  case (Inl x)
  with assms show ?thesis by (simp add: selfupdate_UpdateTo_def emit_def) auto
next
  case (Inr bytes)
  obtain r fs where i: "install bytes exe (install_fault e) (files w) = (r, fs)"
    by (cases "install bytes exe (install_fault e) (files w)")
  with assms Inr have "r = Some err" "files w' = fs"
    by (auto simp: selfupdate_UpdateTo_def emit_def)
  with i show ?thesis using install_failure[of bytes exe "install_fault e" "files w" err fs] by simp
qed

lemma Apply_failure:
  assumes "update_Apply e src fp exe w = (Some err, w')"
  shows "files w' exe = files w exe"
proof -
  obtain r fs where i: "install (content fp) exe (install_fault e) (files w) = (r, fs)"
    by (cases "install (content fp) exe (install_fault e) (files w)")
  with assms have "r = Some err" "files w' = fs"
    by (auto simp: update_Apply_def emit_def)
  with i show ?thesis
    using install_failure[of "content fp" exe "install_fault e" "files w" err fs] by simp
qed

lemma run_reaches_installer:
  assumes "Version e \<noteq> ''unset''"
    and "detect_latest e = (latest, True, None)"
    and "release_LessOrEqual latest (Version e) = Some False"
    and "confirm_answer e = Inr True"
    and "os_Executable e = Inr exe"
  shows "run e ann w =
     (case selfupdate_UpdateTo e (AssetURL latest) (AssetName latest) exe
             (emit (AskConfirm (confirm_text e latest)) (emit DetectLatest w)) of
        (Some err, w3) \<Rightarrow>
          (Return (Some (Wrap err ''error occurred while updating binary'')), w3)
      | (None, w3) \<Rightarrow>
          (case upgrade_notices ann (Version e) (release_Version latest) of
             None \<Rightarrow> (Panic, emit (Stdout (success_text latest)) w3)
           | Some messages \<Rightarrow>
               if messages \<noteq> []
               then (Return None,
                     emit (Stdout (notices_text latest messages))
                       (emit (Stdout (success_text latest)) w3))
               else (Return None, emit (Stdout (success_text latest)) w3)))"
  using assms by (simp add: run_def Let_def split: prod.splits option.splits)

lemma run_failure_keeps_executable:
  assumes r: "run e ann w = (Return (Some err), w')"
    and x: "os_Executable e = Inr exe"
  shows "files w' exe = files w exe"
proof (cases "Version e = ''unset''")
  case True
  with r show ?thesis by (auto simp: run_unset emit_def)
next
  case unset: False
  obtain latest found derr where d: "detect_latest e = (latest, found, derr)"
    by (cases "detect_latest e")
  show ?thesis
  proof (cases derr)
    case (Some a)
    with r unset d show ?thesis by (auto simp: run_def emit_def)
  next
    case None
    show ?thesis
    proof (cases found)
      case False
      with r unset d None show ?thesis by (auto simp: run_def emit_def)
    next
      case True
      show ?thesis
      proof (cases "release_LessOrEqual latest (Version e)")
        case none: None
        with r unset d None True show ?thesis by (simp add: run_def)
      next
        case (Some b)
        show ?thesis
        proof (cases b)
          case True
          with r unset d None \<open>found\<close> Some show ?thesis by (simp add: run_def)
        next
          case False
          from Some False have le: "release_LessOrEqual latest (Version e) = Some False"
            by simp
          from d None True have d': "detect_latest e = (latest, True, None)" by simp
          show ?thesis
          proof (cases "confirm_answer e")
            case (Inl a)
            with r unset d' le show ?thesis by (auto simp: run_def emit_def)
          next
            case (Inr yes)
            show ?thesis
            proof (cases yes)
              case False
              with r unset d' le Inr show ?thesis by (simp add: run_def)
            next
              case yes: True
              from Inr yes have c: "confirm_answer e = Inr True" by simp
              let ?w2 = "emit (AskConfirm (confirm_text e latest)) (emit DetectLatest w)"
              obtain ur w3 where u: "selfupdate_UpdateTo e (AssetURL latest) (AssetName latest)
                  exe ?w2 = (ur, w3)"
                by (cases "selfupdate_UpdateTo e (AssetURL latest) (AssetName latest) exe ?w2")
              have run: "run e ann w =
                  (case (ur, w3) of
                     (Some err, w3) \<Rightarrow>
                       (Return (Some (Wrap err ''error occurred while updating binary'')), w3)
                   | (None, w3) \<Rightarrow>
                       (case upgrade_notices ann (Version e) (release_Version latest) of
                          None \<Rightarrow> (Panic, emit (Stdout (success_text latest)) w3)
                        | Some messages \<Rightarrow>
                            if messages \<noteq> []
                            then (Return None,
                                  emit (Stdout (notices_text latest messages))
                                    (emit (Stdout (success_text latest)) w3))
                            else (Return None, emit (Stdout (success_text latest)) w3)))"
                using run_reaches_installer[OF unset d' le c x, of ann w] u by simp
              show ?thesis
              proof (cases ur)
                case none: None
                with r run show ?thesis by (simp split: option.splits if_splits)
              next
                case (Some uerr)
                with r run have "w' = w3" by simp
                moreover from u Some have "files w3 exe = files ?w2 exe"
                  by (auto dest: UpdateTo_failure)
                ultimately show ?thesis by (simp add: emit_def)
              qed
            qed
          qed
        qed
      qed
    qed
  qed
qed

text \<open>
  C1. An install that fails leaves the file at the target path as it was, bytes and mode;
  an install that succeeds leaves exactly the new bytes there, under the mode of the
  original; so the target holds the old file or the new one and nothing else. Every
  injected fault makes the install fail. The same holds where the command calls the
  installer: a failed \<open>UpdateTo\<close>, a failed \<open>Apply\<close>, and every run of the automatic
  path that returns an error leave the executable as it was.
\<close>

theorem failed_install_keeps_executable:
  "(case install src target flt fs of
      (Some err, fs') \<Rightarrow> fs' target = fs target
    | (None, fs') \<Rightarrow>
        flt = NoFault \<and>
        fs' target = Some \<lparr>content = src,
                            mode = (case fs target of None \<Rightarrow> 493 | Some f \<Rightarrow> mode f)\<rparr>)
   \<and> (flt \<noteq> NoFault \<longrightarrow> fst (install src target flt fs) \<noteq> None)
   \<and> (selfupdate_UpdateTo e url nm exe w = (Some err, w') \<longrightarrow> files w' exe = files w exe)
   \<and> (update_Apply e p fp exe w = (Some err, w') \<longrightarrow> files w' exe = files w exe)
   \<and> (run e ann w = (Return (Some err), w') \<and> os_Executable e = Inr exe
        \<longrightarrow> files w' exe = files w exe)"
proof -
  have 1: "(case install src target flt fs of
      (Some err, fs') \<Rightarrow> fs' target = fs target
    | (None, fs') \<Rightarrow>
        flt = NoFault \<and>
        fs' target = Some \<lparr>content = src,
                            mode = (case fs target of None \<Rightarrow> 493 | Some f \<Rightarrow> mode f)\<rparr>)"
  proof (cases "install src target flt fs")
    case (Pair r fs')
    then show ?thesis
      using install_failure[of src target flt fs _ fs'] install_success[of src target flt fs fs']
      by (cases r) simp_all
  qed
  show ?thesis
    using 1 install_fault_fails[of flt src target fs] UpdateTo_failure[of e url nm exe w err w']
      Apply_failure[of e p fp exe w err w'] run_failure_keeps_executable[of e ann w err w' exe]
    by blast
qed

theorem failed_install_keeps_executable_witness:
  "WriteFault 1 \<noteq> NoFault
   \<and> install ''NEW'' example_exe (WriteFault 1) (files example_world) =
       (Some (External ''write failed''),
        (files example_world)(temp_path example_exe \<mapsto> \<lparr>content = ''N'', mode = 493\<rparr>))
   \<and> ((files example_world)(temp_path example_exe \<mapsto> \<lparr>content = ''N'', mode = 493\<rparr>))
         example_exe = Some \<lparr>content = ''OLD'', mode = 493\<rparr>
   \<and> fst (selfupdate_UpdateTo (example_env\<lparr>install_fault := SwapFault\<rparr>) ''url'' ''afx.tar.gz''
          example_exe example_world) = Some (External ''swap failed'')
   \<and> files (snd (selfupdate_UpdateTo (example_env\<lparr>install_fault := SwapFault\<rparr>) ''url''
          ''afx.tar.gz'' example_exe example_world)) example_exe =
       Some \<lparr>content = ''OLD'', mode = 493\<rparr>
   \<and> fst (update_Apply (example_env\<lparr>install_fault := VerifyFault\<rparr>) [''tmp'', ''afx'']
          \<lparr>content = ''NEW'', mode = 493\<rparr> example_exe example_world) =
       Some (External ''verification failed'')
   \<and> files (snd (update_Apply (example_env\<lparr>install_fault := VerifyFault\<rparr>) [''tmp'', ''afx'']
          \<lparr>content = ''NEW'', mode = 493\<rparr> example_exe example_world)) example_exe =
       Some \<lparr>content = ''OLD'', mode = 493\<rparr>
   \<and> os_Executable (example_env\<lparr>install_fault := WriteFault 1\<rparr>) = Inr example_exe
   \<and> fst (run (example_env\<lparr>install_fault := WriteFault 1\<rparr>) [] example_world) =
       Return (Some (Wrap (External ''write failed'') ''error occurred while updating binary''))
   \<and> files (snd (run (example_env\<lparr>install_fault := WriteFault 1\<rparr>) [] example_world)) example_exe =
       Some \<lparr>content = ''OLD'', mode = 493\<rparr>"
proof -
  let ?e = "example_env\<lparr>install_fault := WriteFault 1\<rparr>"
  let ?s = "example_env\<lparr>install_fault := SwapFault\<rparr>"
  let ?v = "example_env\<lparr>install_fault := VerifyFault\<rparr>"
  let ?U = "selfupdate_UpdateTo ?s ''url'' ''afx.tar.gz'' example_exe example_world"
  let ?A = "update_Apply ?v [''tmp'', ''afx''] \<lparr>content = ''NEW'', mode = 493\<rparr> example_exe
              example_world"
  let ?fs = "(files example_world)(temp_path example_exe \<mapsto> \<lparr>content = ''N'', mode = 493\<rparr>)"
  have i: "install ''NEW'' example_exe (WriteFault 1) (files example_world) =
       (Some (External ''write failed''), ?fs)"
    by (simp add: install_def example_world_def)
  have x: "os_Executable ?e = Inr example_exe" by (simp add: example_env_def)
  have old: "files example_world example_exe = Some \<lparr>content = ''OLD'', mode = 493\<rparr>"
    by (simp add: example_world_def)
  have rf: "fst (run ?e [] example_world) =
      Return (Some (Wrap (External ''write failed'') ''error occurred while updating binary''))"
    using example_not_up_to_date
    by (simp add: run_def example_env_def selfupdate_UpdateTo_def install_def emit_def Let_def)
  have r: "run ?e [] example_world =
      (Return (Some (Wrap (External ''write failed'') ''error occurred while updating binary'')),
       snd (run ?e [] example_world))"
    using rf by (cases "run ?e [] example_world") simp
  have uf: "fst ?U = Some (External ''swap failed'')"
    by (simp add: selfupdate_UpdateTo_def example_env_def install_def emit_def Let_def)
  have u: "?U = (Some (External ''swap failed''), snd ?U)"
    using uf by (cases ?U) simp
  have af: "fst ?A = Some (External ''verification failed'')"
    by (simp add: update_Apply_def install_def emit_def Let_def)
  have a: "?A = (Some (External ''verification failed''), snd ?A)"
    using af by (cases ?A) simp
  from failed_install_keeps_executable [where src = "''NEW''" and target = example_exe
      and flt = "WriteFault 1" and fs = "files example_world" and e = ?e and exe = example_exe
      and ann = "[]" and w = example_world
      and err = "Wrap (External ''write failed'') ''error occurred while updating binary''"
      and w' = "snd (run ?e [] example_world)"] r x
  have keep: "files (snd (run ?e [] example_world)) example_exe = files example_world example_exe"
    by blast
  from failed_install_keeps_executable [where e = ?s and url = "''url''" and nm = "''afx.tar.gz''"
      and exe = example_exe and w = example_world and err = "External ''swap failed''"
      and w' = "snd ?U"] u
  have keepu: "files (snd ?U) example_exe = files example_world example_exe"
    by blast
  from failed_install_keeps_executable [where e = ?v and p = "[''tmp'', ''afx'']"
      and fp = "\<lparr>content = ''NEW'', mode = 493\<rparr>"
      and exe = example_exe and w = example_world and err = "External ''verification failed''"
      and w' = "snd ?A"] a
  have keepa: "files (snd ?A) example_exe = files example_world example_exe"
    by blast
  have ne: "example_exe \<noteq> temp_path example_exe"
    using temp_path_neq[of example_exe] by auto
  show ?thesis using i x rf uf af keep keepu keepa old ne by simp
qed

section \<open>The upgrade notices\<close>

lemma parse_keys_all:
  "parse_keys ks acc =
     (if \<forall>k \<in> set ks. NewVersion k \<noteq> None
      then Some (acc @ map (\<lambda>k. the (NewVersion k)) ks) else None)"
  by (induction ks arbitrary: acc) (auto simp: MustParse_def split: option.splits)

lemma not_LessThan_LessOrEqual: "\<not> LessThan a b \<Longrightarrow> LessOrEqual b a"
  using Compare_flip[of a b] by (cases "Compare a b") (simp_all add: LessThan_def LessOrEqual_def)

lemma LessThan_LessOrEqual: "LessThan a b \<Longrightarrow> LessOrEqual a b"
  by (simp add: LessThan_def LessOrEqual_def)

lemma LessThan_not_LessOrEqual: "LessThan a b \<Longrightarrow> \<not> LessOrEqual b a"
  using Compare_flip[of a b] by (simp add: LessThan_def LessOrEqual_def)

lemma LessThan_LessOrEqual_trans:
  assumes "LessThan a b" "LessOrEqual b c"
  shows "LessThan a c"
proof -
  from assms(2) have "Compare b c = Less \<or> Compare b c = Equal" by (simp add: LessOrEqual_iff)
  then show ?thesis
  proof
    assume "Compare b c = Less"
    with assms(1) show ?thesis using Compare_trans[of a b c] by (simp add: LessThan_def)
  next
    assume "Compare b c = Equal"
    then have "major b = major c" "minor b = minor c" "patch b = patch c" "pre b = pre c"
      by (simp_all add: Compare_Equal)
    with assms(1) show ?thesis by (simp add: LessThan_def Compare_Less)
  qed
qed

lemma set_insert_version: "set (insert_version v ws) = insert v (set ws)"
  by (induction ws) auto

lemma mset_insert_version: "mset (insert_version v ws) = add_mset v (mset ws)"
  by (induction ws) auto

lemma sorted_insert_version:
  "sorted_wrt LessOrEqual ws \<Longrightarrow> sorted_wrt LessOrEqual (insert_version v ws)"
proof (induction ws)
  case Nil
  then show ?case by simp
next
  case (Cons w ws)
  show ?case
  proof (cases "LessThan v w")
    case True
    then have vw: "LessOrEqual v w" by (rule LessThan_LessOrEqual)
    have "\<forall>x \<in> set ws. LessOrEqual v x"
      using Cons.prems vw LessOrEqual_trans[of v w] by auto
    with True vw Cons.prems show ?thesis by simp
  next
    case False
    then have "LessOrEqual w v" by (rule not_LessThan_LessOrEqual)
    with False Cons show ?thesis by (auto simp: set_insert_version)
  qed
qed

lemma mset_sort_collection: "mset (sort_collection vs) = mset vs"
  by (induction vs) (simp_all add: mset_insert_version)

lemma sorted_sort_collection: "sorted_wrt LessOrEqual (sort_collection vs)"
  by (induction vs) (simp_all add: sorted_insert_version)

lemma notice_loop_sorted:
  assumes "MustParse cur = Some start" and "MustParse tgt = Some stop"
  shows "sorted_wrt LessOrEqual vs \<Longrightarrow>
         notice_loop ann cur tgt vs acc =
           Some (acc @ map (\<lambda>v. ''- '' @ lookup ann (String v))
                         (filter (\<lambda>v. GreaterThan v start \<and> LessOrEqual v stop) vs))"
proof (induction vs arbitrary: acc)
  case Nil
  then show ?case by simp
next
  case (Cons v vs)
  show ?case
  proof (cases "LessThan stop v")
    case True
    have "\<forall>x \<in> set (v # vs). \<not> LessOrEqual x stop"
    proof
      fix x assume "x \<in> set (v # vs)"
      with Cons.prems have "LessOrEqual v x"
        by (auto simp: LessOrEqual_def Compare_refl)
      with True have "LessThan stop x" by (rule LessThan_LessOrEqual_trans)
      then show "\<not> LessOrEqual x stop" by (rule LessThan_not_LessOrEqual)
    qed
    then have "filter (\<lambda>v. GreaterThan v start \<and> LessOrEqual v stop) (v # vs) = []"
      by (simp only: filter_empty_conv) blast
    with True assms show ?thesis by simp
  next
    case False
    then have le: "LessOrEqual v stop" by (rule not_LessThan_LessOrEqual)
    from Cons.prems have s: "sorted_wrt LessOrEqual vs" by simp
    show ?thesis
      using False le assms Cons.IH[OF s] by simp
  qed
qed

lemma notice_loop_bad_current:
  "MustParse cur = None \<Longrightarrow> vs \<noteq> [] \<Longrightarrow> notice_loop ann cur tgt vs acc = None"
  by (cases vs) simp_all

lemma lookup_entries:
  assumes "\<forall>(k, t) \<in> set xs. lookup ann k = t"
  shows "map (\<lambda>k. (k, lookup ann k)) (filter Q (map fst xs)) = filter (\<lambda>(k, t). Q k) xs"
  using assms by (induction xs) auto

lemma lookup_distinct:
  assumes "distinct (map fst ann)" "(k, t) \<in> set ann"
  shows "lookup ann k = t"
  using assms by (simp add: lookup_def)

lemma upgrade_notices_sorted:
  assumes keys: "\<forall>k \<in> set (map fst ann). NewVersion k \<noteq> None"
    and cur: "NewVersion cur = Some start" and tgt: "NewVersion tgt = Some stop"
  shows "upgrade_notices ann cur tgt =
           Some (map (\<lambda>v. ''- '' @ lookup ann (String v))
                   (filter (\<lambda>v. GreaterThan v start \<and> LessOrEqual v stop)
                      (sort_collection (map (\<lambda>k. the (NewVersion k)) (map fst ann)))))"
proof -
  have p: "parse_keys (map fst ann) [] = Some (map (\<lambda>k. the (NewVersion k)) (map fst ann))"
    using keys by (simp only: parse_keys_all) simp
  have c: "MustParse cur = Some start" "MustParse tgt = Some stop"
    using cur tgt by (simp_all add: MustParse_def)
  show ?thesis
    unfolding upgrade_notices_def p
    using notice_loop_sorted[OF c sorted_sort_collection, of ann _ "[]"] by simp
qed

text \<open>
  C3, as amended. Let every key of the annotation table parse as a version and print
  back as itself, let no key occur twice, and let the current and the target version
  parse. Then the notice computation does not panic, and its messages are the bullet
  lines \<open>- text\<close> of exactly the entries whose version \<open>v\<close> has
  \<open>current < v\<close> and \<open>v \<le> target\<close>, in ascending order of version.
\<close>

theorem notices_in_range:
  assumes keys: "\<forall>k \<in> set (map fst ann). \<exists>v. NewVersion k = Some v \<and> String v = k"
    and dist: "distinct (map fst ann)"
    and cur: "NewVersion cur = Some start" and tgt: "NewVersion tgt = Some stop"
  shows "\<exists>es. upgrade_notices ann cur tgt = Some (map (\<lambda>(k, t). ''- '' @ t) es)
           \<and> mset es =
               mset (filter (\<lambda>(k, t). GreaterThan (the (NewVersion k)) start
                                       \<and> LessOrEqual (the (NewVersion k)) stop) ann)
           \<and> sorted_wrt (\<lambda>(k, t) (k', t').
                 LessOrEqual (the (NewVersion k)) (the (NewVersion k'))) es"
proof -
  let ?ver = "\<lambda>k. the (NewVersion k)"
  let ?P = "\<lambda>v. GreaterThan v start \<and> LessOrEqual v stop"
  let ?g = "\<lambda>v. (String v, lookup ann (String v))"
  let ?vs = "map ?ver (map fst ann)"
  let ?svs = "sort_collection ?vs"
  let ?es = "map ?g (filter ?P ?svs)"
  have ok: "\<forall>k \<in> set (map fst ann). NewVersion k \<noteq> None"
    using keys by auto
  have canon: "String (?ver k) = k" if "k \<in> set (map fst ann)" for k
    using keys that by auto
  have 1: "upgrade_notices ann cur tgt = Some (map (\<lambda>(k, t). ''- '' @ t) ?es)"
    unfolding upgrade_notices_sorted[OF ok cur tgt] by (simp add: comp_def)
  have "mset ?es = image_mset ?g (filter_mset ?P (mset ?svs))"
    by simp
  also have "\<dots> = image_mset ?g (filter_mset ?P (mset ?vs))"
    by (simp only: mset_sort_collection)
  also have "\<dots> = mset (map ?g (filter ?P ?vs))"
    by simp
  also have "map ?g (filter ?P ?vs) =
               map (\<lambda>k. ?g (?ver k)) (filter (\<lambda>k. ?P (?ver k)) (map fst ann))"
    by (simp add: filter_map comp_def)
  also have "\<dots> = map (\<lambda>k. (k, lookup ann k)) (filter (\<lambda>k. ?P (?ver k)) (map fst ann))"
    by (rule map_cong) (auto simp: canon)
  also have "\<dots> = filter (\<lambda>(k, t). ?P (?ver k)) ann"
    by (rule lookup_entries) (auto simp: lookup_distinct[OF dist])
  finally have 2: "mset ?es = mset (filter (\<lambda>(k, t). ?P (?ver k)) ann)" .
  have "sorted_wrt LessOrEqual (filter ?P ?svs)"
    by (rule sorted_wrt_filter) (rule sorted_sort_collection)
  moreover have "\<forall>x \<in> set (filter ?P ?svs). ?ver (String x) = x"
  proof
    fix x assume "x \<in> set (filter ?P ?svs)"
    then have "x \<in> set ?svs" by simp
    then have "x \<in># mset ?svs" by simp
    then have "x \<in># mset ?vs" by (simp only: mset_sort_collection)
    then obtain k where k: "k \<in> set (map fst ann)" "x = ?ver k" by auto
    with canon[OF k(1)] show "?ver (String x) = x" by simp
  qed
  ultimately have "sorted_wrt (\<lambda>x y. LessOrEqual (?ver (String x)) (?ver (String y)))
      (filter ?P ?svs)"
    by (auto intro: sorted_wrt_mono_rel[where P = LessOrEqual])
  then have 3: "sorted_wrt (\<lambda>(k, t) (k', t'). LessOrEqual (?ver k) (?ver k')) ?es"
    by (simp add: sorted_wrt_map)
  from 1 2 3 show ?thesis by blast
qed

lemma example_versions:
  "NewVersion ''1.1.0'' = Some \<lparr>major = 1, minor = 1, patch = 0, pre = [], metadata = []\<rparr>"
  "NewVersion ''1.2.0'' = Some \<lparr>major = 1, minor = 2, patch = 0, pre = [], metadata = []\<rparr>"
  "NewVersion ''1.3.0'' = Some \<lparr>major = 1, minor = 3, patch = 0, pre = [], metadata = []\<rparr>"
  "NewVersion ''2.0.0'' = Some \<lparr>major = 2, minor = 0, patch = 0, pre = [], metadata = []\<rparr>"
  by code_simp+

lemma example_strings:
  "String \<lparr>major = 1, minor = 2, patch = 0, pre = [], metadata = []\<rparr> = ''1.2.0''"
  "String \<lparr>major = 1, minor = 3, patch = 0, pre = [], metadata = []\<rparr> = ''1.3.0''"
  "String \<lparr>major = 2, minor = 0, patch = 0, pre = [], metadata = []\<rparr> = ''2.0.0''"
  by code_simp+

lemma example_malformed:
  "NewVersion ''oops'' = None" "NewVersion ''not-a-version'' = None" "NewVersion ''dev'' = None"
  by code_simp+

theorem notices_in_range_witness:
  "NewVersion ''1.2.0'' = Some \<lparr>major = 1, minor = 2, patch = 0, pre = [], metadata = []\<rparr>
   \<and> String \<lparr>major = 1, minor = 2, patch = 0, pre = [], metadata = []\<rparr> = ''1.2.0''
   \<and> NewVersion ''1.3.0'' = Some \<lparr>major = 1, minor = 3, patch = 0, pre = [], metadata = []\<rparr>
   \<and> String \<lparr>major = 1, minor = 3, patch = 0, pre = [], metadata = []\<rparr> = ''1.3.0''
   \<and> NewVersion ''2.0.0'' = Some \<lparr>major = 2, minor = 0, patch = 0, pre = [], metadata = []\<rparr>
   \<and> String \<lparr>major = 2, minor = 0, patch = 0, pre = [], metadata = []\<rparr> = ''2.0.0''
   \<and> distinct (map fst [(''2.0.0'', ''C''), (''1.2.0'', ''A''), (''1.3.0'', ''B'')])
   \<and> NewVersion ''1.1.0'' = Some \<lparr>major = 1, minor = 1, patch = 0, pre = [], metadata = []\<rparr>
   \<and> upgrade_notices [(''2.0.0'', ''C''), (''1.2.0'', ''A''), (''1.3.0'', ''B'')] ''1.1.0'' ''1.3.0'' =
       Some [''- A'', ''- B'']
   \<and> (\<exists>es. upgrade_notices [(''2.0.0'', ''C''), (''1.2.0'', ''A''), (''1.3.0'', ''B'')]
               ''1.1.0'' ''1.3.0'' = Some (map (\<lambda>(k, t). ''- '' @ t) es)
           \<and> mset es = {#(''1.2.0'', ''A''), (''1.3.0'', ''B'')#}
           \<and> sorted_wrt (\<lambda>(k, t) (k', t').
                 LessOrEqual (the (NewVersion k)) (the (NewVersion k'))) es)"
proof -
  let ?ann = "[(''2.0.0'', ''C''), (''1.2.0'', ''A''), (''1.3.0'', ''B'')]"
  let ?start = "\<lparr>major = 1, minor = 1, patch = 0, pre = [], metadata = []\<rparr>"
  let ?stop = "\<lparr>major = 1, minor = 3, patch = 0, pre = [], metadata = []\<rparr>"
  have k1: "\<exists>v. NewVersion ''1.2.0'' = Some v \<and> String v = ''1.2.0''"
    using example_versions(2) example_strings(1) by blast
  have k2: "\<exists>v. NewVersion ''1.3.0'' = Some v \<and> String v = ''1.3.0''"
    using example_versions(3) example_strings(2) by blast
  have k3: "\<exists>v. NewVersion ''2.0.0'' = Some v \<and> String v = ''2.0.0''"
    using example_versions(4) example_strings(3) by blast
  have keys: "\<forall>k \<in> set (map fst ?ann). \<exists>v. NewVersion k = Some v \<and> String v = k"
    using k1 k2 k3 by simp
  have dist: "distinct (map fst ?ann)" by simp
  have sel: "filter (\<lambda>(k, t). GreaterThan (the (NewVersion k)) ?start
                               \<and> LessOrEqual (the (NewVersion k)) ?stop) ?ann =
             [(''1.2.0'', ''A''), (''1.3.0'', ''B'')]"
    by (simp add: example_versions GreaterThan_def LessOrEqual_def Compare_def compare_nat_def)
  have val: "upgrade_notices ?ann ''1.1.0'' ''1.3.0'' = Some [''- A'', ''- B'']"
    by code_simp
  from notices_in_range [OF keys dist example_versions(1) example_versions(3)]
  have "\<exists>es. upgrade_notices ?ann ''1.1.0'' ''1.3.0'' = Some (map (\<lambda>(k, t). ''- '' @ t) es)
           \<and> mset es = {#(''1.2.0'', ''A''), (''1.3.0'', ''B'')#}
           \<and> sorted_wrt (\<lambda>(k, t) (k', t').
                 LessOrEqual (the (NewVersion k)) (the (NewVersion k'))) es"
    unfolding sel by simp
  then show ?thesis
    using val dist example_versions example_strings by blast
qed

theorem unparsable_annotation_counterexample:
  "NewVersion ''oops'' = None
   \<and> GreaterThan (the (NewVersion ''1.2.0'')) (the (NewVersion ''1.1.0''))
   \<and> LessOrEqual (the (NewVersion ''1.2.0'')) (the (NewVersion ''1.3.0''))
   \<and> upgrade_notices [(''1.2.0'', ''A''), (''oops'', ''B'')] ''1.1.0'' ''1.3.0'' = None"
  by (simp add: upgrade_notices_def parse_keys_all example_versions example_malformed
      GreaterThan_def LessOrEqual_def Compare_def compare_nat_def)

text \<open>
  C5, as amended. The notice computation parses every annotation key with the parse that
  panics on failure and discards nothing: parsing the keys panics exactly when some key
  does not parse, and then the whole computation panics. In the automatic path this
  happens after the installer has succeeded: the command panics once the success message
  is printed.
\<close>

theorem malformed_key_panics:
  "(parse_keys (map fst ann) [] = None \<longleftrightarrow> (\<exists>k \<in> set (map fst ann). NewVersion k = None))
   \<and> ((\<exists>k \<in> set (map fst ann). NewVersion k = None) \<longrightarrow> upgrade_notices ann cur tgt = None)
   \<and> ((\<exists>k \<in> set (map fst ann). NewVersion k = None)
        \<and> Version e \<noteq> ''unset'' \<and> detect_latest e = (latest, True, None)
        \<and> release_LessOrEqual latest (Version e) = Some False
        \<and> confirm_answer e = Inr True \<and> os_Executable e = Inr exe
        \<and> selfupdate_UpdateTo e (AssetURL latest) (AssetName latest) exe
              (emit (AskConfirm (confirm_text e latest)) (emit DetectLatest w)) = (None, w3)
        \<longrightarrow> run e ann w = (Panic, emit (Stdout (success_text latest)) w3))"
proof -
  have 1: "parse_keys (map fst ann) [] = None \<longleftrightarrow> (\<exists>k \<in> set (map fst ann). NewVersion k = None)"
    by (simp only: parse_keys_all) auto
  have 2: "upgrade_notices ann c t = None"
    if "\<exists>k \<in> set (map fst ann). NewVersion k = None" for c t
    using that 1 by (simp add: upgrade_notices_def)
  have 3: "run e ann w = (Panic, emit (Stdout (success_text latest)) w3)"
    if "\<exists>k \<in> set (map fst ann). NewVersion k = None"
      and "Version e \<noteq> ''unset''" and "detect_latest e = (latest, True, None)"
      and "release_LessOrEqual latest (Version e) = Some False"
      and "confirm_answer e = Inr True" and "os_Executable e = Inr exe"
      and "selfupdate_UpdateTo e (AssetURL latest) (AssetName latest) exe
              (emit (AskConfirm (confirm_text e latest)) (emit DetectLatest w)) = (None, w3)"
    using run_reaches_installer[OF that(2-6), of ann w] that(7) 2[OF that(1)] by simp
  from 1 2 3 show ?thesis by blast
qed

lemma example_update:
  "selfupdate_UpdateTo example_env (AssetURL example_release) (AssetName example_release) example_exe w =
     (None, w\<lparr>trace := trace w @ [UpdateTo (AssetURL example_release) (AssetName example_release) example_exe],
              files := ((files w)(temp_path example_exe := None))
                 (example_exe \<mapsto> \<lparr>content = ''NEW'',
                    mode = (case files w example_exe of None \<Rightarrow> 493 | Some f \<Rightarrow> mode f)\<rparr>)\<rparr>)"
  by (simp add: selfupdate_UpdateTo_def example_env_def install_def emit_def Let_def)

theorem malformed_key_panics_witness:
  "NewVersion ''not-a-version'' = None
   \<and> parse_keys (map fst [(''not-a-version'', ''X'')]) [] = None
   \<and> upgrade_notices [(''not-a-version'', ''X'')] ''1.1.0'' ''1.3.0'' = None
   \<and> fst (run example_env [(''not-a-version'', ''X'')] example_world) = Panic
   \<and> trace (snd (run example_env [(''not-a-version'', ''X'')] example_world)) =
       [DetectLatest, AskConfirm ''Do you want to update to 1.3.0? (current version: 1.1.0)'',
        UpdateTo ''https://example.invalid/afx_linux_amd64.tar.gz'' ''afx_linux_amd64.tar.gz''
          example_exe,
        Stdout (''Successfully updated to version 1.3.0'' @ nl)]"
proof -
  let ?ann = "[(''not-a-version'', ''X'')]"
  let ?w2 = "emit (AskConfirm (confirm_text example_env example_release))
               (emit DetectLatest example_world)"
  have k: "\<exists>k \<in> set (map fst ?ann). NewVersion k = None"
    by (simp add: example_malformed)
  have h: "Version example_env \<noteq> ''unset''"
    "detect_latest example_env = (example_release, True, None)"
    "confirm_answer example_env = Inr True" "os_Executable example_env = Inr example_exe"
    by (simp_all add: example_env_def)
  have le: "release_LessOrEqual example_release (Version example_env) = Some False"
    using example_not_up_to_date by (simp add: example_env_def)
  have v: "release_Version example_release = ''1.3.0''" by code_simp
  have f: "AssetURL example_release = ''https://example.invalid/afx_linux_amd64.tar.gz''"
    "AssetName example_release = ''afx_linux_amd64.tar.gz''"
    by (simp_all add: example_release_def)
  note t = malformed_key_panics [of ?ann "''1.1.0''" "''1.3.0''" example_env example_release
      example_exe example_world]
  from t k have a: "parse_keys (map fst ?ann) [] = None"
    "upgrade_notices ?ann ''1.1.0'' ''1.3.0'' = None" by blast+
  from t k h le example_update[of ?w2]
  have r: "run example_env ?ann example_world =
      (Panic, emit (Stdout (success_text example_release))
         (?w2\<lparr>trace := trace ?w2 @ [UpdateTo (AssetURL example_release)
                 (AssetName example_release) example_exe],
               files := ((files ?w2)(temp_path example_exe := None))
                 (example_exe \<mapsto> \<lparr>content = ''NEW'',
                    mode = (case files ?w2 example_exe of None \<Rightarrow> 493 | Some f \<Rightarrow> mode f)\<rparr>)\<rparr>))"
    by blast
  have b: "fst (run example_env ?ann example_world) = Panic" unfolding r by simp
  have c: "trace (snd (run example_env ?ann example_world)) =
       [DetectLatest, AskConfirm ''Do you want to update to 1.3.0? (current version: 1.1.0)'',
        UpdateTo ''https://example.invalid/afx_linux_amd64.tar.gz'' ''afx_linux_amd64.tar.gz''
          example_exe,
        Stdout (''Successfully updated to version 1.3.0'' @ nl)]"
    unfolding r
    by (simp add: emit_def confirm_text_def success_text_def v f example_env_def
        example_world_def)
  from a b c example_malformed(2) show ?thesis by blast
qed

theorem malformed_key_counterexample:
  "fst (run example_env [(''not-a-version'', ''X'')] example_world) = Panic
   \<and> files (snd (run example_env [(''not-a-version'', ''X'')] example_world)) example_exe =
       Some \<lparr>content = ''NEW'', mode = 493\<rparr>"
proof -
  let ?w2 = "emit (AskConfirm (confirm_text example_env example_release)) (emit DetectLatest example_world)"
  have n: "upgrade_notices [(''not-a-version'', ''X'')] (Version example_env)
             (release_Version example_release) = None"
    by (simp add: upgrade_notices_def parse_keys_all example_malformed)
  have le: "release_LessOrEqual example_release (Version example_env) = Some False"
    using example_not_up_to_date by (simp add: example_env_def)
  have "run example_env [(''not-a-version'', ''X'')] example_world =
          (Panic, emit (Stdout (success_text example_release))
             (snd (selfupdate_UpdateTo example_env (AssetURL example_release)
                    (AssetName example_release) example_exe ?w2)))"
    using run_reaches_installer[of example_env example_release example_exe
        "[(''not-a-version'', ''X'')]" example_world] le n example_update[of ?w2]
    by (simp add: example_env_def)
  then show ?thesis
    by (simp add: example_update emit_def example_world_def)
qed

lemma sort_collection_Nil: "sort_collection vs = [] \<longleftrightarrow> vs = []"
proof -
  have "mset (sort_collection vs) = {#} \<longleftrightarrow> mset vs = {#}"
    by (simp only: mset_sort_collection)
  then show ?thesis by simp
qed

lemma upgrade_notices_bad_current:
  assumes "NewVersion cur = None" and "ann \<noteq> []"
  shows "upgrade_notices ann cur tgt = None"
proof (cases "parse_keys (map fst ann) []")
  case None
  then show ?thesis by (simp add: upgrade_notices_def)
next
  case (Some vs)
  then have "vs = map (\<lambda>k. the (NewVersion k)) (map fst ann)"
    unfolding parse_keys_all by (simp split: if_splits)
  with assms(2) have "sort_collection vs \<noteq> []" by (simp add: sort_collection_Nil)
  with assms(1) Some show ?thesis
    by (simp add: upgrade_notices_def notice_loop_bad_current MustParse_def)
qed

text \<open>
  C10, as amended. The notice computation parses the current version with the parse that
  panics on failure once per annotation entry, so on a current version that does not
  parse it panics whenever the table is not empty. In automatic mode, however, a build
  version that is neither the sentinel nor a valid version never reaches the installer:
  the comparison of the detected release with it panics right after the detection (or
  the detection itself ends the command with an error), so the only event is the
  detection and no file changes.
\<close>

theorem invalid_version_stops_before_install:
  assumes "Version e \<noteq> ''unset''" and "NewVersion (Version e) = None"
  shows "run e ann w =
           (case detect_latest e of
              (latest, found, Some err) \<Rightarrow>
                (Return (Some (Wrap err ''error occurred while detecting version'')),
                 w\<lparr>trace := trace w @ [DetectLatest]\<rparr>)
            | (latest, found, None) \<Rightarrow>
                if found then (Panic, w\<lparr>trace := trace w @ [DetectLatest]\<rparr>)
                else (Return (Some (Errorf (not_found_text e))),
                      w\<lparr>trace := trace w @ [DetectLatest]\<rparr>))
         \<and> (ann \<noteq> [] \<longrightarrow> upgrade_notices ann (Version e) tgt = None)"
proof -
  have le: "release_LessOrEqual latest (Version e) = None" for latest
    using assms(2) by (simp add: release_LessOrEqual_def MustParse_def)
  have "run e ann w =
           (case detect_latest e of
              (latest, found, Some err) \<Rightarrow>
                (Return (Some (Wrap err ''error occurred while detecting version'')),
                 w\<lparr>trace := trace w @ [DetectLatest]\<rparr>)
            | (latest, found, None) \<Rightarrow>
                if found then (Panic, w\<lparr>trace := trace w @ [DetectLatest]\<rparr>)
                else (Return (Some (Errorf (not_found_text e))),
                      w\<lparr>trace := trace w @ [DetectLatest]\<rparr>))"
    using assms(1) by (simp add: run_def le emit_def split: prod.splits option.splits)
  then show ?thesis
    using upgrade_notices_bad_current[OF assms(2), of ann tgt] by blast
qed

theorem invalid_version_stops_before_install_witness:
  "Version (example_env\<lparr>Version := ''dev''\<rparr>) \<noteq> ''unset''
   \<and> NewVersion (Version (example_env\<lparr>Version := ''dev''\<rparr>)) = None
   \<and> run (example_env\<lparr>Version := ''dev''\<rparr>) [(''0.1.11'', ''Run afx state refresh'')] example_world =
       (Panic, example_world\<lparr>trace := [DetectLatest]\<rparr>)
   \<and> upgrade_notices [(''0.1.11'', ''Run afx state refresh'')] ''dev'' ''1.3.0'' = None"
proof -
  let ?e = "example_env\<lparr>Version := ''dev''\<rparr>"
  have 1: "Version ?e \<noteq> ''unset''" by simp
  have 2: "NewVersion (Version ?e) = None" by (simp add: example_malformed)
  from invalid_version_stops_before_install [OF 1 2,
      of "[(''0.1.11'', ''Run afx state refresh'')]" example_world "''1.3.0''"] 1 2
  show ?thesis by (simp add: example_env_def example_world_def)
qed

theorem invalid_version_counterexample:
  "fst (run (example_env\<lparr>Version := ''dev''\<rparr>) [(''0.1.11'', ''Run afx state refresh'')]
          example_world) = Panic
   \<and> trace (snd (run (example_env\<lparr>Version := ''dev''\<rparr>) [(''0.1.11'', ''Run afx state refresh'')]
          example_world)) = [DetectLatest]
   \<and> files (snd (run (example_env\<lparr>Version := ''dev''\<rparr>) [(''0.1.11'', ''Run afx state refresh'')]
          example_world)) example_exe = Some \<lparr>content = ''OLD'', mode = 493\<rparr>"
  by (simp add: run_def release_LessOrEqual_def MustParse_def example_malformed example_env_def
      example_world_def emit_def)

section \<open>The interactive path\<close>

lemma selected_assets_Home:
  "a \<in> set (selected_assets e body tag) \<Longrightarrow> Home a = HOME e @ [''.afx'']"
  by (auto simp: selected_assets_def split: option.splits)

text \<open>
  C9. In interactive mode, whatever tag is selected, once the download has returned an
  asset and the archive is unpacked, the command opens the file named \<open>afx\<close> in the
  home directory of that asset, which for every asset of the selected release is
  \<open>$HOME/.afx\<close>. If there is no such file the command returns an error: the trace
  ends with the failed open, so the installer is not invoked. Otherwise that file, and
  no other, is handed to the installer with the path of the running executable as
  target.
\<close>

theorem interactive_installs_afx:
  assumes "http_Get e = Inr body"
    and "release_Download e
           (selected_assets e body (case select_answer e of None \<Rightarrow> [] | Some t \<Rightarrow> t))
           (files w) = (Inr a, fs1)"
    and "release_Unarchive e a fs1 = (None, fs2)"
  shows "(a \<in> set (selected_assets e body (case select_answer e of None \<Rightarrow> [] | Some t \<Rightarrow> t))
            \<longrightarrow> Home a @ [''afx''] = HOME e @ [''.afx'', ''afx''])
         \<and> (fs2 (Home a @ [''afx'']) = None \<longrightarrow>
              selectTag e w =
                (Return (Some (External ''open: no such file or directory'')),
                 w\<lparr>trace := trace w @ [HttpGet, AskSelect (map tag_name body), Download,
                      Unarchive, Open (Home a @ [''afx''])],
                   files := fs2\<rparr>))
         \<and> (fs2 (Home a @ [''afx'']) = Some fp \<and> os_Executable e = Inr exe \<longrightarrow>
              selectTag e w =
                (Return (fst (install (content fp) exe (install_fault e) fs2)),
                 w\<lparr>trace := trace w @ [HttpGet, AskSelect (map tag_name body), Download,
                      Unarchive, Open (Home a @ [''afx'']), Apply (Home a @ [''afx'']) exe],
                   files := snd (install (content fp) exe (install_fault e) fs2)\<rparr>))"
proof -
  have 1: "a \<in> set (selected_assets e body (case select_answer e of None \<Rightarrow> [] | Some t \<Rightarrow> t))
            \<longrightarrow> Home a @ [''afx''] = HOME e @ [''.afx'', ''afx'']"
    by (auto dest: selected_assets_Home)
  have 2: "selectTag e w =
                (Return (Some (External ''open: no such file or directory'')),
                 w\<lparr>trace := trace w @ [HttpGet, AskSelect (map tag_name body), Download,
                      Unarchive, Open (Home a @ [''afx''])],
                   files := fs2\<rparr>)"
    if "fs2 (Home a @ [''afx'']) = None"
    using assms that by (simp add: selectTag_def Let_def emit_def)
  have 3: "selectTag e w =
                (Return (fst (install (content fp) exe (install_fault e) fs2)),
                 w\<lparr>trace := trace w @ [HttpGet, AskSelect (map tag_name body), Download,
                      Unarchive, Open (Home a @ [''afx'']), Apply (Home a @ [''afx'']) exe],
                   files := snd (install (content fp) exe (install_fault e) fs2)\<rparr>)"
    if "fs2 (Home a @ [''afx'']) = Some fp" "os_Executable e = Inr exe"
    using assms that
    by (simp add: selectTag_def update_Apply_def Let_def emit_def split: prod.splits)
  from 1 2 3 show ?thesis by blast
qed

theorem interactive_installs_afx_witness:
  "http_Get example_env = Inr example_body
   \<and> select_answer example_env = Some ''v1.3.0''
   \<and> HOME example_env @ [''.afx'', ''afx''] = [''home'', ''u'', ''.afx'', ''afx'']
   \<and> fst (selectTag example_env example_world) = Return None
   \<and> trace (snd (selectTag example_env example_world)) =
       [HttpGet, AskSelect [''v1.3.0'', ''v1.2.0''], Download, Unarchive,
        Open [''home'', ''u'', ''.afx'', ''afx''],
        Apply [''home'', ''u'', ''.afx'', ''afx''] example_exe]
   \<and> files (snd (selectTag example_env example_world)) example_exe =
       Some \<lparr>content = ''NEW'', mode = 493\<rparr>
   \<and> fst (selectTag (example_env\<lparr>release_Unarchive := (\<lambda>a fs. (None, fs))\<rparr>) example_world) =
       Return (Some (External ''open: no such file or directory''))
   \<and> trace (snd (selectTag (example_env\<lparr>release_Unarchive := (\<lambda>a fs. (None, fs))\<rparr>)
         example_world)) =
       [HttpGet, AskSelect [''v1.3.0'', ''v1.2.0''], Download, Unarchive,
        Open [''home'', ''u'', ''.afx'', ''afx'']]
   \<and> files (snd (selectTag (example_env\<lparr>release_Unarchive := (\<lambda>a fs. (None, fs))\<rparr>)
         example_world)) example_exe =
       Some \<lparr>content = ''OLD'', mode = 493\<rparr>"
proof -
  let ?a = "\<lparr>Name = ''afx_linux_amd64.tar.gz'', Home = [''home'', ''u'', ''.afx''],
             Path = [''home'', ''u'', ''.afx'', ''afx_linux_amd64.tar.gz''],
             URL = ''https://example.invalid/afx_linux_amd64.tar.gz''\<rparr>"
  let ?fs1 = "(files example_world)(Path ?a \<mapsto> \<lparr>content = ''ARCHIVE'', mode = 420\<rparr>)"
  let ?fs2 = "?fs1(Home ?a @ [''afx''] \<mapsto> \<lparr>content = ''NEW'', mode = 493\<rparr>)"
  let ?f = "example_env\<lparr>release_Unarchive := (\<lambda>a fs. (None, fs))\<rparr>"
  have sel: "selected_assets example_env example_body
               (case select_answer example_env of None \<Rightarrow> [] | Some t \<Rightarrow> t) = [?a]"
    by (simp add: selected_assets_def example_env_def example_body_def)
  have self: "selected_assets ?f example_body
               (case select_answer ?f of None \<Rightarrow> [] | Some t \<Rightarrow> t) = [?a]"
    by (simp add: selected_assets_def example_env_def example_body_def)
  have h1: "http_Get example_env = Inr example_body" by (simp add: example_env_def)
  have h2: "release_Download example_env
              (selected_assets example_env example_body
                 (case select_answer example_env of None \<Rightarrow> [] | Some t \<Rightarrow> t))
              (files example_world) = (Inr ?a, ?fs1)"
    unfolding sel by (simp add: example_env_def example_Download_def)
  have h3: "release_Unarchive example_env ?a ?fs1 = (None, ?fs2)"
    by (simp add: example_env_def example_Unarchive_def)
  have g1: "http_Get ?f = Inr example_body" by (simp add: example_env_def)
  have g2: "release_Download ?f
              (selected_assets ?f example_body
                 (case select_answer ?f of None \<Rightarrow> [] | Some t \<Rightarrow> t))
              (files example_world) = (Inr ?a, ?fs1)"
    unfolding self by (simp add: example_env_def example_Download_def)
  have g3: "release_Unarchive ?f ?a ?fs1 = (None, ?fs1)" by simp
  have there: "?fs2 (Home ?a @ [''afx'']) = Some \<lparr>content = ''NEW'', mode = 493\<rparr>"
    by simp
  have absent: "?fs1 (Home ?a @ [''afx'']) = None"
    by (simp add: example_world_def example_exe_def)
  have x: "os_Executable example_env = Inr example_exe" by (simp add: example_env_def)
  have ok: "selectTag example_env example_world =
      (Return (fst (install ''NEW'' example_exe (install_fault example_env) ?fs2)),
       example_world\<lparr>trace := trace example_world @ [HttpGet, AskSelect (map tag_name example_body),
            Download, Unarchive, Open (Home ?a @ [''afx'']), Apply (Home ?a @ [''afx'']) example_exe],
          files := snd (install ''NEW'' example_exe (install_fault example_env) ?fs2)\<rparr>)"
    using interactive_installs_afx [OF h1 h2 h3] there x by simp
  have bad: "selectTag ?f example_world =
      (Return (Some (External ''open: no such file or directory'')),
       example_world\<lparr>trace := trace example_world @ [HttpGet, AskSelect (map tag_name example_body),
            Download, Unarchive, Open (Home ?a @ [''afx''])],
          files := ?fs1\<rparr>)"
    using interactive_installs_afx [OF g1 g2 g3] absent by simp
  have sa: "select_answer example_env = Some ''v1.3.0''" by (simp add: example_env_def)
  have "Home ?a @ [''afx''] = HOME example_env @ [''.afx'', ''afx'']"
    using interactive_installs_afx [OF h1 h2 h3] unfolding sel by simp
  then have r0: "HOME example_env @ [''.afx'', ''afx''] = [''home'', ''u'', ''.afx'', ''afx'']"
    by simp
  have r1: "fst (selectTag example_env example_world) = Return None"
    unfolding ok by (simp add: install_def example_env_def)
  have r2: "trace (snd (selectTag example_env example_world)) =
       [HttpGet, AskSelect [''v1.3.0'', ''v1.2.0''], Download, Unarchive,
        Open [''home'', ''u'', ''.afx'', ''afx''],
        Apply [''home'', ''u'', ''.afx'', ''afx''] example_exe]"
    unfolding ok by (simp add: example_world_def example_body_def)
  have r3: "files (snd (selectTag example_env example_world)) example_exe =
       Some \<lparr>content = ''NEW'', mode = 493\<rparr>"
    unfolding ok by (simp add: install_def example_env_def example_world_def example_exe_def)
  have r4: "fst (selectTag ?f example_world) =
       Return (Some (External ''open: no such file or directory''))"
    unfolding bad by simp
  have r5: "trace (snd (selectTag ?f example_world)) =
       [HttpGet, AskSelect [''v1.3.0'', ''v1.2.0''], Download, Unarchive,
        Open [''home'', ''u'', ''.afx'', ''afx'']]"
    unfolding bad by (simp add: example_world_def example_body_def)
  have r6: "files (snd (selectTag ?f example_world)) example_exe =
       Some \<lparr>content = ''OLD'', mode = 493\<rparr>"
    unfolding bad by (simp add: example_world_def example_exe_def)
  from h1 sa r0 r1 r2 r3 r4 r5 r6 show ?thesis by blast
qed

end
